theory Spec2Isabelle
  imports Complex_Main
begin

section \<open>Learning-rate schedulers of \<^verbatim>\<open>learning_rates.py\<close>\<close>

text \<open>
  The module holds ten dataclasses, each with a \<^verbatim>\<open>__call__(self, iteration)\<close> that maps
  an iteration number to a learning rate. The seven schedulers modelled here are
  \<^verbatim>\<open>CosineScheduler\<close>, \<^verbatim>\<open>StepLR\<close>, \<^verbatim>\<open>MultiStepLR\<close>, \<^verbatim>\<open>LinearLR\<close>, \<^verbatim>\<open>CyclicLR\<close>,
  \<^verbatim>\<open>OneCycleLR\<close> and \<^verbatim>\<open>CosineAnnealingWarmRestarts\<close>.

  Modelling decisions, the same for every scheduler:
  \<^item> Python's \<^verbatim>\<open>int\<close> is \<open>int\<close>; \<^verbatim>\<open>//\<close> and \<^verbatim>\<open>%\<close> are \<open>div\<close> and \<open>mod\<close> (both round
    towards minus infinity, the remainder has the sign of the divisor).
  \<^item> Python's \<^verbatim>\<open>float\<close> has two models. Where a property is about which branch runs, which
    exception is raised or whether a loop ends (construction, the assertion of
    \<^verbatim>\<open>CosineScheduler\<close>, \<^verbatim>\<open>CosineAnnealingWarmRestarts\<close>), floats are idealised as \<open>real\<close>, with
    \<^verbatim>\<open>math.pi\<close> as \<open>pi\<close> and \<^verbatim>\<open>math.cos\<close> as \<open>cos\<close>. Where a property is about the value of
    a rate, floats are IEEE 754 binary64 numbers (\<open>f64\<close>): every operation rounds to the
    nearest double, ties to even, and overflows to an infinity; the functions of this model
    carry the suffix \<open>_f64\<close>.
  \<^item> A raise is a value: \<^verbatim>\<open>/\<close>, \<^verbatim>\<open>//\<close> and \<^verbatim>\<open>%\<close> by zero and zero to a negative power
    give \<open>Inl ZeroDivisionError\<close>, a failed \<^verbatim>\<open>assert\<close> gives \<open>Inl AssertionError\<close>; in the
    binary64 model an \<^verbatim>\<open>int\<close> too large for a float and an overflowing \<^verbatim>\<open>**\<close> give
    \<open>Inl OverflowError\<close>, and \<^verbatim>\<open>math.cos\<close> and \<^verbatim>\<open>math.floor\<close> of an infinity or a NaN give
    \<open>Inl ValueError\<close> or \<open>Inl OverflowError\<close> as Python does.
  \<^item> A \<^verbatim>\<open>while\<close> loop that may run forever is a partial function into \<open>option\<close>;
    \<open>None\<close> is "does not return".
  \<^item> The field types are the annotated ones (\<^verbatim>\<open>float\<close>, \<^verbatim>\<open>int\<close>, \<^verbatim>\<open>List[int]\<close>), and
    \<^verbatim>\<open>iteration\<close> is an \<^verbatim>\<open>int\<close>. A \<^verbatim>\<open>float\<close> field holds a finite number, a \<open>real\<close>;
    that it is a double is the hypothesis \<open>is_f64\<close> where a property needs it.
\<close>

datatype py_error = ZeroDivisionError | AssertionError | OverflowError | ValueError

subsection \<open>Arithmetic of Python that can raise\<close>

text \<open>\<^verbatim>\<open>x ** n\<close> for a float \<^verbatim>\<open>x\<close> and an int \<^verbatim>\<open>n\<close>: \<^verbatim>\<open>0.0 ** n\<close> raises for negative \<^verbatim>\<open>n\<close>.\<close>

definition float_pow :: "real \<Rightarrow> int \<Rightarrow> py_error + real" where
  "float_pow x n =
     (if 0 \<le> n then Inr (x ^ nat n)
      else if x = 0 then Inl ZeroDivisionError
      else Inr (1 / x ^ nat (- n)))"

subsection \<open>The dataclasses\<close>

record CosineScheduler =
  max_lr :: real
  min_lr :: real
  warmup_iters :: int
  max_iters :: int

record StepLR =
  max_lr :: real
  max_iters :: int
  gamma :: real

record MultiStepLR =
  max_lr :: real
  max_iters :: int
  gamma :: real
  milestones :: "int list"

record LinearLR =
  max_lr :: real
  max_iters :: int

record CyclicLR =
  max_lr :: real
  min_lr :: real
  max_iters :: int

record OneCycleLR =
  max_lr :: real
  min_lr :: real
  max_iters :: int
  pct_start :: real

record CosineAnnealingWarmRestarts =
  max_lr :: real
  min_lr :: real
  warmup_steps :: int
  T_mult :: int

subsection \<open>Construction\<close>

text \<open>
  \<^verbatim>\<open>@dataclass\<close> generates an \<^verbatim>\<open>__init__\<close> that stores its arguments in the fields; no
  class defines \<^verbatim>\<open>__post_init__\<close> or any other check. The result type has room for a
  rejection (\<open>Inl\<close>), which no constructor produces.
\<close>

definition CosineScheduler_init :: "real \<Rightarrow> real \<Rightarrow> int \<Rightarrow> int \<Rightarrow> py_error + CosineScheduler" where
  "CosineScheduler_init max_lr' min_lr' warmup_iters' max_iters' =
     Inr \<lparr>CosineScheduler.max_lr = max_lr', min_lr = min_lr',
          warmup_iters = warmup_iters', max_iters = max_iters'\<rparr>"

definition MultiStepLR_init :: "real \<Rightarrow> int \<Rightarrow> real \<Rightarrow> int list \<Rightarrow> py_error + MultiStepLR" where
  "MultiStepLR_init max_lr' max_iters' gamma' milestones' =
     Inr \<lparr>MultiStepLR.max_lr = max_lr', max_iters = max_iters',
          gamma = gamma', milestones = milestones'\<rparr>"

subsection \<open>\<^verbatim>\<open>CosineScheduler.__call__\<close>\<close>

definition decay_ratio :: "CosineScheduler \<Rightarrow> int \<Rightarrow> real" where
  "decay_ratio self iteration =
     of_int (iteration - warmup_iters self)
       / of_int (CosineScheduler.max_iters self - warmup_iters self)"

definition CosineScheduler_call :: "CosineScheduler \<Rightarrow> int \<Rightarrow> py_error + real" where
  "CosineScheduler_call self iteration =
     (if iteration < warmup_iters self then
        (if warmup_iters self = 0 then Inl ZeroDivisionError
         else Inr (CosineScheduler.max_lr self * of_int iteration / of_int (warmup_iters self)))
      else if iteration > CosineScheduler.max_iters self then Inr (CosineScheduler.min_lr self)
      else if CosineScheduler.max_iters self - warmup_iters self = 0 then Inl ZeroDivisionError
      else if \<not> (0 \<le> decay_ratio self iteration \<and> decay_ratio self iteration \<le> 1)
        then Inl AssertionError
      else
        (let coeff = 0.5 * (1.0 + cos (pi * decay_ratio self iteration))
         in Inr (CosineScheduler.min_lr self
                  + coeff * (CosineScheduler.max_lr self - CosineScheduler.min_lr self))))"

subsection \<open>\<^verbatim>\<open>MultiStepLR.__call__\<close>\<close>

text \<open>\<^verbatim>\<open>sum([iteration >= m for m in self.milestones])\<close>: a sum of booleans, \<^verbatim>\<open>True\<close> being 1.\<close>

definition milestones_passed :: "int list \<Rightarrow> int \<Rightarrow> int" where
  "milestones_passed ms iteration = sum_list (map (\<lambda>m. of_bool (iteration \<ge> m)) ms)"

definition MultiStepLR_call :: "MultiStepLR \<Rightarrow> int \<Rightarrow> py_error + real" where
  "MultiStepLR_call self iteration =
     (case float_pow (MultiStepLR.gamma self) (milestones_passed (milestones self) iteration) of
        Inl e \<Rightarrow> Inl e
      | Inr p \<Rightarrow> Inr (MultiStepLR.max_lr self * p))"

subsection \<open>\<^verbatim>\<open>CosineAnnealingWarmRestarts.__call__\<close>\<close>

text \<open>
  The loop \<^verbatim>\<open>while iteration >= T_i: iteration -= T_i; T_i *= self.T_mult\<close> on its two
  variables. It returns their final values, or nothing when it runs forever.
\<close>

partial_function (option) restart_loop :: "int \<Rightarrow> int \<Rightarrow> int \<Rightarrow> (int \<times> int) option" where
  "restart_loop T_mult' iteration T_i =
     (if iteration \<ge> T_i then restart_loop T_mult' (iteration - T_i) (T_i * T_mult')
      else Some (iteration, T_i))"

definition CosineAnnealingWarmRestarts_call ::
    "CosineAnnealingWarmRestarts \<Rightarrow> int \<Rightarrow> (py_error + real) option" where
  "CosineAnnealingWarmRestarts_call self iteration =
     (if warmup_steps self = 0 then Some (Inl ZeroDivisionError)
      else
        (let T_cur = iteration mod warmup_steps self;
             T_i = warmup_steps self
         in case restart_loop (T_mult self) iteration T_i of
              None \<Rightarrow> None
            | Some (iteration', T_i') \<Rightarrow>
                Some (Inr (CosineAnnealingWarmRestarts.min_lr self
                  + (CosineAnnealingWarmRestarts.max_lr self - CosineAnnealingWarmRestarts.min_lr self)
                    * (1 + cos (pi * of_int T_cur / of_int (warmup_steps self))) / 2))))"

section \<open>Binary64 arithmetic\<close>

text \<open>
  A double is a finite number, an infinity or a NaN. The two zeros are one value: they are
  equal under \<^verbatim>\<open>==\<close>, and no operation used by the schedulers tells them apart (a division
  by either raises).
\<close>

datatype f64 = Fin real | PInf | NInf | NaN

text \<open>
  Rounding to the nearest integer, ties to even.
\<close>

definition rhe :: "real \<Rightarrow> int" where
  "rhe y =
     (let f = \<lfloor>y\<rfloor>; r = y - of_int f
      in if r < 1 / 2 then f
         else if 1 / 2 < r then f + 1
         else if even f then f else f + 1)"

text \<open>
  The exponent of a number: the \<open>e\<close> with \<open>2 ^ e \<le> \<bar>x\<bar> < 2 ^ (e + 1)\<close>, not below \<open>- 1022\<close>
  (the subnormal range) and not above \<open>1024\<close>, found by counting up from \<open>- 1022\<close>.
\<close>

fun find_ex :: "nat \<Rightarrow> int \<Rightarrow> real \<Rightarrow> int" where
  "find_ex 0 e a = e"
| "find_ex (Suc n) e a = (if a < 2 powi (e + 1) then e else find_ex n (e + 1) a)"

definition ex_of :: "real \<Rightarrow> int" where
  "ex_of x = find_ex 2046 (- 1022) \<bar>x\<bar>"

text \<open>
  Rounding to 53 significant bits at the exponent of the argument; a result of magnitude
  \<open>2 ^ 1024\<close> or more is an infinity. \<open>is_f64 x\<close> says that \<open>x\<close> is a finite double, and
  \<open>float_literal x\<close> is the double that Python reads from the decimal literal \<open>x\<close>.
\<close>

definition rnd_at :: "int \<Rightarrow> real \<Rightarrow> real" where
  "rnd_at e x = of_int (rhe (x / 2 powi (e - 52))) * 2 powi (e - 52)"

definition rnd_fin :: "real \<Rightarrow> real" where
  "rnd_fin x = rnd_at (ex_of x) x"

definition rnd :: "real \<Rightarrow> f64" where
  "rnd x =
     (let y = rnd_fin x
      in if 2 ^ 1024 \<le> y then PInf else if y \<le> - (2 ^ 1024) then NInf else Fin y)"

definition is_f64 :: "real \<Rightarrow> bool" where
  "is_f64 x \<longleftrightarrow> rnd x = Fin x"

definition float_literal :: "real \<Rightarrow> real" where
  "float_literal x = rnd_fin x"

subsection \<open>Operations on doubles\<close>

text \<open>
  \<open>and_then\<close> runs the next step unless the previous one raised. The arithmetic follows
  IEEE 754: a NaN operand gives NaN, \<open>inf - inf\<close>, \<open>0 * inf\<close> and \<open>inf / inf\<close> are NaN.
\<close>

definition and_then :: "'e + 'a \<Rightarrow> ('a \<Rightarrow> 'e + 'b) \<Rightarrow> 'e + 'b" where
  "and_then r f = (case r of Inl e \<Rightarrow> Inl e | Inr v \<Rightarrow> f v)"

fun f64_neg :: "f64 \<Rightarrow> f64" where
  "f64_neg (Fin x) = Fin (- x)"
| "f64_neg PInf = NInf"
| "f64_neg NInf = PInf"
| "f64_neg NaN = NaN"

fun f64_add :: "f64 \<Rightarrow> f64 \<Rightarrow> f64" where
  "f64_add (Fin x) (Fin y) = rnd (x + y)"
| "f64_add NaN b = NaN"
| "f64_add a NaN = NaN"
| "f64_add PInf NInf = NaN"
| "f64_add NInf PInf = NaN"
| "f64_add PInf b = PInf"
| "f64_add a PInf = PInf"
| "f64_add NInf b = NInf"
| "f64_add a NInf = NInf"

definition f64_sub :: "f64 \<Rightarrow> f64 \<Rightarrow> f64" where
  "f64_sub a b = f64_add a (f64_neg b)"

fun f64_mul :: "f64 \<Rightarrow> f64 \<Rightarrow> f64" where
  "f64_mul (Fin x) (Fin y) = rnd (x * y)"
| "f64_mul NaN b = NaN"
| "f64_mul a NaN = NaN"
| "f64_mul PInf (Fin y) = (if y = 0 then NaN else if 0 < y then PInf else NInf)"
| "f64_mul NInf (Fin y) = (if y = 0 then NaN else if 0 < y then NInf else PInf)"
| "f64_mul (Fin x) PInf = (if x = 0 then NaN else if 0 < x then PInf else NInf)"
| "f64_mul (Fin x) NInf = (if x = 0 then NaN else if 0 < x then NInf else PInf)"
| "f64_mul PInf PInf = PInf"
| "f64_mul NInf NInf = PInf"
| "f64_mul PInf NInf = NInf"
| "f64_mul NInf PInf = NInf"

fun f64_div :: "f64 \<Rightarrow> f64 \<Rightarrow> f64" where
  "f64_div (Fin x) (Fin y) = rnd (x / y)"
| "f64_div NaN b = NaN"
| "f64_div a NaN = NaN"
| "f64_div (Fin x) PInf = Fin 0"
| "f64_div (Fin x) NInf = Fin 0"
| "f64_div PInf (Fin y) = (if 0 \<le> y then PInf else NInf)"
| "f64_div NInf (Fin y) = (if 0 \<le> y then NInf else PInf)"
| "f64_div PInf PInf = NaN"
| "f64_div PInf NInf = NaN"
| "f64_div NInf PInf = NaN"
| "f64_div NInf NInf = NaN"

fun f64_abs :: "f64 \<Rightarrow> f64" where
  "f64_abs (Fin x) = Fin \<bar>x\<bar>"
| "f64_abs PInf = PInf"
| "f64_abs NInf = PInf"
| "f64_abs NaN = NaN"

text \<open>
  \<^verbatim>\<open><\<close> and \<^verbatim>\<open><=\<close> on floats: every comparison with a NaN is false.
\<close>

fun f64_less :: "f64 \<Rightarrow> f64 \<Rightarrow> bool" where
  "f64_less (Fin x) (Fin y) = (x < y)"
| "f64_less NaN b = False"
| "f64_less a NaN = False"
| "f64_less PInf b = False"
| "f64_less a PInf = True"
| "f64_less NInf b = (b \<noteq> NInf)"
| "f64_less a NInf = False"

definition f64_le :: "f64 \<Rightarrow> f64 \<Rightarrow> bool" where
  "f64_le a b \<longleftrightarrow> f64_less a b \<or> (a = b \<and> a \<noteq> NaN)"

text \<open>
  Conversions and divisions that can raise. \<^verbatim>\<open>float(n)\<close> and \<^verbatim>\<open>n / m\<close> on ints are
  correctly rounded and raise \<^verbatim>\<open>OverflowError\<close> when the result is too large for a float.
  \<^verbatim>\<open>a / b\<close> on floats raises \<^verbatim>\<open>ZeroDivisionError\<close> for \<open>b = 0\<close>.
\<close>

definition float_of_int :: "int \<Rightarrow> py_error + f64" where
  "float_of_int n = (case rnd (of_int n) of Fin y \<Rightarrow> Inr (Fin y) | _ \<Rightarrow> Inl OverflowError)"

definition int_truediv :: "int \<Rightarrow> int \<Rightarrow> py_error + f64" where
  "int_truediv a b =
     (if b = 0 then Inl ZeroDivisionError
      else case rnd (of_int a / of_int b) of Fin y \<Rightarrow> Inr (Fin y) | _ \<Rightarrow> Inl OverflowError)"

definition float_truediv :: "f64 \<Rightarrow> f64 \<Rightarrow> py_error + f64" where
  "float_truediv a b = (if b = Fin 0 then Inl ZeroDivisionError else Inr (f64_div a b))"

text \<open>
  \<^verbatim>\<open>x ** n\<close> for a finite float \<^verbatim>\<open>x\<close> and an int \<^verbatim>\<open>n\<close>: the exponent is converted to a
  float first; \<^verbatim>\<open>x ** 0\<close> is 1.0, \<^verbatim>\<open>0.0 ** n\<close> raises for negative \<^verbatim>\<open>n\<close>, and an overflow
  raises \<^verbatim>\<open>OverflowError\<close>. The C library's \<^verbatim>\<open>pow\<close> is taken as correctly rounded.
\<close>

definition float_pow_int :: "real \<Rightarrow> int \<Rightarrow> py_error + f64" where
  "float_pow_int x n =
     and_then (float_of_int n) (\<lambda>w.
       case w of
         Fin iw \<Rightarrow>
           if iw = 0 then Inr (Fin 1)
           else if x = 0 then (if iw < 0 then Inl ZeroDivisionError else Inr (Fin 0))
           else (case rnd (x powi \<lfloor>iw\<rfloor>) of Fin r \<Rightarrow> Inr (Fin r) | _ \<Rightarrow> Inl OverflowError)
       | _ \<Rightarrow> Inl OverflowError)"

text \<open>
  \<^verbatim>\<open>math.pi\<close> is the double \<open>3.141592653589793\<close>. \<^verbatim>\<open>math.cos\<close> is the C library's: it
  returns 1.0 at 0.0 and -1.0 at \<^verbatim>\<open>math.pi\<close>; at the other arguments, on which nothing below
  depends, it is taken as correctly rounded. \<^verbatim>\<open>math.floor\<close> returns an int.
  \<open>max_0 y\<close> is \<^verbatim>\<open>max(0, y)\<close>, which returns \<^verbatim>\<open>y\<close> only when \<^verbatim>\<open>y > 0\<close>.
\<close>

definition math_pi :: real where
  "math_pi = 884279719003555 / 281474976710656"

definition math_cos :: "f64 \<Rightarrow> py_error + f64" where
  "math_cos a =
     (case a of
        Fin x \<Rightarrow>
          if x = 0 then Inr (Fin 1)
          else if x = math_pi then Inr (Fin (- 1))
          else Inr (rnd (cos x))
      | NaN \<Rightarrow> Inr NaN
      | _ \<Rightarrow> Inl ValueError)"

definition math_floor :: "f64 \<Rightarrow> py_error + int" where
  "math_floor a =
     (case a of Fin x \<Rightarrow> Inr \<lfloor>x\<rfloor> | NaN \<Rightarrow> Inl ValueError | _ \<Rightarrow> Inl OverflowError)"

definition max_0 :: "f64 \<Rightarrow> f64" where
  "max_0 y = (if f64_less (Fin 0) y then y else Fin 0)"

subsection \<open>The schedulers on doubles\<close>

text \<open>
  Each \<^verbatim>\<open>__call__\<close> with its operations in the order Python evaluates them. An int
  operand of a float operation is converted with \<open>float_of_int\<close>.
\<close>

definition CosineScheduler_call_f64 :: "CosineScheduler \<Rightarrow> int \<Rightarrow> py_error + f64" where
  "CosineScheduler_call_f64 self iteration =
     (if iteration < warmup_iters self then
        and_then (float_of_int iteration) (\<lambda>ft.
        and_then (float_of_int (warmup_iters self)) (\<lambda>fw.
          float_truediv (f64_mul (Fin (CosineScheduler.max_lr self)) ft) fw))
      else if iteration > CosineScheduler.max_iters self then Inr (Fin (CosineScheduler.min_lr self))
      else
        and_then (int_truediv (iteration - warmup_iters self)
                    (CosineScheduler.max_iters self - warmup_iters self)) (\<lambda>decay_ratio.
          if \<not> (f64_le (Fin 0) decay_ratio \<and> f64_le decay_ratio (Fin 1)) then Inl AssertionError
          else
            and_then (math_cos (f64_mul (Fin math_pi) decay_ratio)) (\<lambda>c.
              let coeff = f64_mul (Fin 0.5) (f64_add (Fin 1.0) c)
              in Inr (f64_add (Fin (CosineScheduler.min_lr self))
                       (f64_mul coeff
                          (f64_sub (Fin (CosineScheduler.max_lr self))
                                   (Fin (CosineScheduler.min_lr self))))))))"

definition StepLR_call_f64 :: "StepLR \<Rightarrow> int \<Rightarrow> py_error + f64" where
  "StepLR_call_f64 self iteration =
     (if StepLR.max_iters self = 0 then Inl ZeroDivisionError
      else and_then (float_pow_int (StepLR.gamma self) (iteration div StepLR.max_iters self))
             (\<lambda>p. Inr (f64_mul (Fin (StepLR.max_lr self)) p)))"

definition MultiStepLR_call_f64 :: "MultiStepLR \<Rightarrow> int \<Rightarrow> py_error + f64" where
  "MultiStepLR_call_f64 self iteration =
     and_then (float_pow_int (MultiStepLR.gamma self)
                 (milestones_passed (milestones self) iteration))
       (\<lambda>p. Inr (f64_mul (Fin (MultiStepLR.max_lr self)) p))"

definition LinearLR_call_f64 :: "LinearLR \<Rightarrow> int \<Rightarrow> py_error + f64" where
  "LinearLR_call_f64 self iteration =
     and_then (int_truediv iteration (LinearLR.max_iters self))
       (\<lambda>q. Inr (f64_mul (Fin (LinearLR.max_lr self)) (f64_sub (Fin 1) q)))"

definition CyclicLR_call_f64 :: "CyclicLR \<Rightarrow> int \<Rightarrow> py_error + f64" where
  "CyclicLR_call_f64 self iteration =
     and_then (int_truediv iteration (2 * CyclicLR.max_iters self)) (\<lambda>q1.
     and_then (math_floor (f64_add (Fin 1) q1)) (\<lambda>cycle.
     and_then (int_truediv iteration (CyclicLR.max_iters self)) (\<lambda>q2.
     and_then (float_of_int (2 * cycle)) (\<lambda>c2.
       let x = f64_abs (f64_add (f64_sub q2 c2) (Fin 1))
       in Inr (f64_add (Fin (CyclicLR.min_lr self))
                (f64_mul (f64_sub (Fin (CyclicLR.max_lr self)) (Fin (CyclicLR.min_lr self)))
                   (max_0 (f64_sub (Fin 1) x))))))))"

text \<open>
  The two branches of \<^verbatim>\<open>OneCycleLR.__call__\<close>, each the expression of its \<^verbatim>\<open>return\<close>, as
  functions of the iteration as a float, so that they can be compared at the junction
  \<^verbatim>\<open>pct_start * max_iters\<close>, which need not be an integer. \<^verbatim>\<open>__call__\<close> uses them at
  \<^verbatim>\<open>float(iteration)\<close>; the conversion of \<^verbatim>\<open>iteration\<close> raises the same \<^verbatim>\<open>OverflowError\<close>
  wherever in the expression it happens, and before any division by zero.
\<close>

definition OneCycleLR_rising :: "OneCycleLR \<Rightarrow> f64 \<Rightarrow> py_error + f64" where
  "OneCycleLR_rising self t =
     and_then (float_of_int (OneCycleLR.max_iters self)) (\<lambda>fm.
     and_then (float_truediv t (f64_mul (Fin (pct_start self)) fm)) (\<lambda>r.
       Inr (f64_add (Fin (OneCycleLR.min_lr self))
             (f64_mul (f64_sub (Fin (OneCycleLR.max_lr self)) (Fin (OneCycleLR.min_lr self))) r))))"

definition OneCycleLR_falling :: "OneCycleLR \<Rightarrow> f64 \<Rightarrow> py_error + f64" where
  "OneCycleLR_falling self t =
     and_then (float_of_int (OneCycleLR.max_iters self)) (\<lambda>fm.
     and_then (float_truediv (f64_sub t (f64_mul (Fin (pct_start self)) fm))
                 (f64_mul (f64_sub (Fin 1) (Fin (pct_start self))) fm)) (\<lambda>r.
       Inr (f64_sub (Fin (OneCycleLR.max_lr self))
             (f64_mul (f64_sub (Fin (OneCycleLR.max_lr self)) (Fin (OneCycleLR.min_lr self))) r))))"

definition OneCycleLR_call_f64 :: "OneCycleLR \<Rightarrow> int \<Rightarrow> py_error + f64" where
  "OneCycleLR_call_f64 self iteration =
     and_then (int_truediv iteration (OneCycleLR.max_iters self)) (\<lambda>q.
     and_then (float_of_int iteration) (\<lambda>ft.
       if f64_le q (Fin (pct_start self)) then OneCycleLR_rising self ft
       else OneCycleLR_falling self ft))"

definition OneCycleLR_junction :: "OneCycleLR \<Rightarrow> f64" where
  "OneCycleLR_junction self =
     f64_mul (Fin (pct_start self)) (rnd (of_int (OneCycleLR.max_iters self)))"

section \<open>Properties of branches, exceptions and termination\<close>

subsection \<open>Powers with a natural exponent\<close>

lemma float_pow_nat: "float_pow x (int n) = Inr (x ^ n)"
  by (simp add: float_pow_def)

subsection \<open>Construction\<close>

text \<open>
  C2 says that every inconsistent configuration, such as \<^verbatim>\<open>max_iters < warmup_iters\<close> for
  \<^verbatim>\<open>CosineScheduler\<close> or an empty milestone list for \<^verbatim>\<open>MultiStepLR\<close>, is rejected when
  the scheduler is constructed. The generated constructors check nothing: with
  \<^verbatim>\<open>warmup_iters = 10\<close> and \<^verbatim>\<open>max_iters = 5\<close> the \<^verbatim>\<open>CosineScheduler\<close> is built and
  holds exactly these fields, and \<^verbatim>\<open>MultiStepLR\<close> is built with \<^verbatim>\<open>milestones = []\<close>.
\<close>

theorem construction_not_rejected_counterexample:
  "CosineScheduler.max_iters \<lparr>CosineScheduler.max_lr = 1, min_lr = 0, warmup_iters = 10, max_iters = 5\<rparr>
     < warmup_iters \<lparr>CosineScheduler.max_lr = 1, min_lr = 0, warmup_iters = 10, max_iters = 5\<rparr>
   \<and> CosineScheduler_init 1 0 10 5
       = Inr \<lparr>CosineScheduler.max_lr = 1, min_lr = 0, warmup_iters = 10, max_iters = 5\<rparr>
   \<and> \<not> isl (CosineScheduler_init 1 0 10 5)
   \<and> \<not> isl (MultiStepLR_init 1 100 0.1 [])"
  by (simp add: CosineScheduler_init_def MultiStepLR_init_def)

text \<open>
  C2, as amended. No configuration is rejected at construction: the constructor returns
  the object with the fields as given, whatever their values. What an inconsistent
  configuration does shows only in a query: a \<^verbatim>\<open>CosineScheduler\<close> with
  \<^verbatim>\<open>max_iters = warmup_iters\<close> raises \<^verbatim>\<open>ZeroDivisionError\<close> at
  \<^verbatim>\<open>iteration = warmup_iters\<close>, and a \<^verbatim>\<open>MultiStepLR\<close> with no milestones returns
  \<^verbatim>\<open>max_lr\<close> at every iteration.
\<close>

theorem construction_accepts_every_configuration:
  "CosineScheduler_init a b w m
     = Inr \<lparr>CosineScheduler.max_lr = a, min_lr = b, warmup_iters = w, max_iters = m\<rparr>
   \<and> MultiStepLR_init a m g ms
     = Inr \<lparr>MultiStepLR.max_lr = a, max_iters = m, gamma = g, milestones = ms\<rparr>
   \<and> CosineScheduler_call
       \<lparr>CosineScheduler.max_lr = a, min_lr = b, warmup_iters = w, max_iters = w\<rparr> w
     = Inl ZeroDivisionError
   \<and> MultiStepLR_call \<lparr>MultiStepLR.max_lr = a, max_iters = m, gamma = g, milestones = []\<rparr> t
     = Inr a"
  by (simp add: CosineScheduler_init_def MultiStepLR_init_def CosineScheduler_call_def
      MultiStepLR_call_def milestones_passed_def float_pow_def)

theorem construction_accepts_every_configuration_witness:
  "CosineScheduler_init 1 0 10 5
     = Inr \<lparr>CosineScheduler.max_lr = 1, min_lr = 0, warmup_iters = 10, max_iters = 5\<rparr>
   \<and> MultiStepLR_init 1 5 0.1 []
     = Inr \<lparr>MultiStepLR.max_lr = 1, max_iters = 5, gamma = 0.1, milestones = []\<rparr>
   \<and> CosineScheduler_call
       \<lparr>CosineScheduler.max_lr = 1, min_lr = 0, warmup_iters = 10, max_iters = 10\<rparr> 10
     = Inl ZeroDivisionError
   \<and> MultiStepLR_call \<lparr>MultiStepLR.max_lr = 1, max_iters = 5, gamma = 0.1, milestones = []\<rparr> 7
     = Inr 1"
  using construction_accepts_every_configuration
    [where a = 1 and b = 0 and w = 10 and m = 5 and g = "0.1" and ms = "[]" and t = 7]
  by simp

subsection \<open>The assertion of CosineScheduler\<close>

lemma decay_ratio_bounds:
  assumes "warmup_iters self < CosineScheduler.max_iters self"
    and "warmup_iters self \<le> t" and "t \<le> CosineScheduler.max_iters self"
  shows "0 \<le> decay_ratio self t \<and> decay_ratio self t \<le> 1"
  using assms by (simp add: decay_ratio_def)



subsection \<open>CosineAnnealingWarmRestarts\<close>

lemma restart_loop_terminates:
  assumes "1 \<le> T_mult'" and "1 \<le> T_i"
  shows "\<exists>r. restart_loop T_mult' iteration T_i = Some r"
  using assms(2)
proof (induction "nat iteration" arbitrary: iteration T_i rule: less_induct)
  case less
  show ?case
  proof (cases "iteration \<ge> T_i")
    case True
    with less.prems have smaller: "nat (iteration - T_i) < nat iteration"
      by simp
    from less.prems assms(1) have "1 * 1 \<le> T_i * T_mult'"
      by (intro mult_mono) simp_all
    then have "1 \<le> T_i * T_mult'"
      by simp
    with less.hyps [OF smaller] obtain r
      where "restart_loop T_mult' (iteration - T_i) (T_i * T_mult') = Some r"
      by blast
    with True show ?thesis
      by (subst restart_loop.simps) simp
  next
    case False
    then show ?thesis
      by (subst restart_loop.simps) simp
  qed
qed

lemma restart_loop_zero_cycle_diverges:
  assumes "restart_loop T_mult' iteration T_i = Some r"
  shows "\<not> (T_i = 0 \<and> 0 \<le> iteration)"
proof (rule restart_loop.raw_induct [where P = "\<lambda>m i T y. \<not> (T = 0 \<and> 0 \<le> i)", OF _ assms])
  fix f :: "int \<Rightarrow> int \<Rightarrow> int \<Rightarrow> (int \<times> int) option" and m i T :: int and y
  assume IH: "\<And>m i T y. f m i T = Some y \<Longrightarrow> \<not> (T = 0 \<and> 0 \<le> i)"
    and step: "(if T \<le> i then f m (i - T) (T * m) else Some (i, T)) = Some y"
  show "\<not> (T = 0 \<and> 0 \<le> i)"
  proof
    assume stuck: "T = 0 \<and> 0 \<le> i"
    with step have "f m i 0 = Some y" by simp
    from IH [OF this] stuck show False by simp
  qed
qed

lemma restart_loop_T_mult_zero:
  assumes "1 \<le> w" and "w \<le> t"
  shows "restart_loop 0 t w = None"
proof -
  have "restart_loop 0 t w = restart_loop 0 (t - w) 0"
    using assms by (subst restart_loop.simps) simp
  moreover have "restart_loop 0 (t - w) 0 = None"
  proof (cases "restart_loop 0 (t - w) 0")
    case (Some r)
    from restart_loop_zero_cycle_diverges [OF Some] assms show ?thesis by simp
  qed simp
  ultimately show ?thesis by simp
qed

lemma warm_restarts_value:
  assumes ws: "1 \<le> warmup_steps self" and tm: "1 \<le> T_mult self"
  shows "CosineAnnealingWarmRestarts_call self t
      = Some (Inr (CosineAnnealingWarmRestarts.min_lr self
          + (CosineAnnealingWarmRestarts.max_lr self - CosineAnnealingWarmRestarts.min_lr self)
            * (1 + cos (pi * of_int (t mod warmup_steps self) / of_int (warmup_steps self))) / 2))"
proof -
  from restart_loop_terminates [OF tm ws] obtain i' T_i'
    where "restart_loop (T_mult self) t (warmup_steps self) = Some (i', T_i')"
    by fastforce
  with ws show ?thesis
    by (simp add: CosineAnnealingWarmRestarts_call_def Let_def)
qed

text \<open>
  C10. For every \<^verbatim>\<open>CosineAnnealingWarmRestarts\<close> with \<^verbatim>\<open>warmup_steps >= 1\<close> and
  \<^verbatim>\<open>T_mult >= 1\<close> the \<^verbatim>\<open>while\<close> loop ends for every iteration \<^verbatim>\<open>t >= 0\<close>, and the call
  returns a rate. The precondition matters: with \<^verbatim>\<open>T_mult = 0\<close> the loop runs forever as
  soon as \<^verbatim>\<open>t >= warmup_steps\<close>.
\<close>

theorem restart_loop_total:
  "(1 \<le> warmup_steps self \<and> 1 \<le> T_mult self \<and> 0 \<le> t \<longrightarrow>
      (\<exists>r. restart_loop (T_mult self) t (warmup_steps self) = Some r)
      \<and> (\<exists>y. CosineAnnealingWarmRestarts_call self t = Some (Inr y)))
   \<and> (1 \<le> warmup_steps self \<and> T_mult self = 0 \<and> warmup_steps self \<le> t \<longrightarrow>
      restart_loop (T_mult self) t (warmup_steps self) = None
      \<and> CosineAnnealingWarmRestarts_call self t = None)"
proof -
  have total: "(\<exists>r. restart_loop (T_mult self) t (warmup_steps self) = Some r)
      \<and> (\<exists>y. CosineAnnealingWarmRestarts_call self t = Some (Inr y))"
    if "1 \<le> warmup_steps self" and "1 \<le> T_mult self"
    using restart_loop_terminates [OF that(2) that(1)] warm_restarts_value [OF that]
    by simp
  have forever: "restart_loop (T_mult self) t (warmup_steps self) = None
      \<and> CosineAnnealingWarmRestarts_call self t = None"
    if "1 \<le> warmup_steps self" and "T_mult self = 0" and "warmup_steps self \<le> t"
    using restart_loop_T_mult_zero [OF that(1) that(3)] that
    by (simp add: CosineAnnealingWarmRestarts_call_def)
  from total forever show ?thesis by blast
qed

theorem restart_loop_total_witness:
  "1 \<le> warmup_steps \<lparr>CosineAnnealingWarmRestarts.max_lr = 1, min_lr = 0, warmup_steps = 10, T_mult = 2\<rparr>
   \<and> 1 \<le> T_mult \<lparr>CosineAnnealingWarmRestarts.max_lr = 1, min_lr = 0, warmup_steps = 10, T_mult = 2\<rparr>
   \<and> (0::int) \<le> 45
   \<and> restart_loop 2 45 10 = Some (15, 40)
   \<and> (\<exists>y. CosineAnnealingWarmRestarts_call
        \<lparr>CosineAnnealingWarmRestarts.max_lr = 1, min_lr = 0, warmup_steps = 10, T_mult = 2\<rparr> 45
         = Some (Inr y))
   \<and> T_mult \<lparr>CosineAnnealingWarmRestarts.max_lr = 1, min_lr = 0, warmup_steps = 10, T_mult = 0\<rparr> = 0
   \<and> warmup_steps \<lparr>CosineAnnealingWarmRestarts.max_lr = 1, min_lr = 0, warmup_steps = 10, T_mult = 0\<rparr> \<le> 10
   \<and> restart_loop 0 10 10 = None
   \<and> CosineAnnealingWarmRestarts_call
        \<lparr>CosineAnnealingWarmRestarts.max_lr = 1, min_lr = 0, warmup_steps = 10, T_mult = 0\<rparr> 10 = None"
  using restart_loop_total
    [of "\<lparr>CosineAnnealingWarmRestarts.max_lr = 1, min_lr = 0, warmup_steps = 10, T_mult = 2\<rparr>" 45]
    restart_loop_total
    [of "\<lparr>CosineAnnealingWarmRestarts.max_lr = 1, min_lr = 0, warmup_steps = 10, T_mult = 0\<rparr>" 10]
  by (simp add: restart_loop.simps [of 2 45] restart_loop.simps [of 2 35] restart_loop.simps [of 2 15])

text \<open>
  C1. For every \<^verbatim>\<open>CosineAnnealingWarmRestarts\<close> with \<^verbatim>\<open>warmup_steps >= 1\<close> and
  \<^verbatim>\<open>T_mult >= 1\<close> and every iteration \<^verbatim>\<open>t >= 0\<close> the call returns
  \<open>min_lr + (max_lr - min_lr) * (1 + cos (pi * (t mod warmup_steps) / warmup_steps)) / 2\<close>:
  the loop has no effect on the result, which is the same for every \<^verbatim>\<open>T_mult >= 1\<close>; for
  \<^verbatim>\<open>T_mult = 1\<close> the rate has period \<^verbatim>\<open>warmup_steps\<close>.
\<close>

theorem CosineAnnealingWarmRestarts_fixed_modulo:
  assumes ws: "1 \<le> warmup_steps self" and tm: "1 \<le> T_mult self" and t: "0 \<le> t"
  shows "CosineAnnealingWarmRestarts_call self t
      = Some (Inr (CosineAnnealingWarmRestarts.min_lr self
          + (CosineAnnealingWarmRestarts.max_lr self - CosineAnnealingWarmRestarts.min_lr self)
            * (1 + cos (pi * of_int (t mod warmup_steps self) / of_int (warmup_steps self))) / 2))
    \<and> (\<forall>T_mult'. 1 \<le> T_mult' \<longrightarrow>
          CosineAnnealingWarmRestarts_call (self\<lparr>T_mult := T_mult'\<rparr>) t
            = CosineAnnealingWarmRestarts_call self t)
    \<and> (T_mult self = 1 \<longrightarrow>
          CosineAnnealingWarmRestarts_call self (t + warmup_steps self)
            = CosineAnnealingWarmRestarts_call self t)"
proof -
  note val = warm_restarts_value [OF ws tm]
  have other: "CosineAnnealingWarmRestarts_call (self\<lparr>T_mult := T_mult'\<rparr>) t
            = CosineAnnealingWarmRestarts_call self t" if "1 \<le> T_mult'" for T_mult'
    using warm_restarts_value [of "self\<lparr>T_mult := T_mult'\<rparr>" t] ws that
    by (simp add: val)
  have period: "CosineAnnealingWarmRestarts_call self (t + warmup_steps self)
            = CosineAnnealingWarmRestarts_call self t"
    by (simp add: val)
  from val other period show ?thesis by blast
qed

theorem CosineAnnealingWarmRestarts_fixed_modulo_witness:
  "1 \<le> warmup_steps \<lparr>CosineAnnealingWarmRestarts.max_lr = 1, min_lr = 0, warmup_steps = 10, T_mult = 1\<rparr>
   \<and> 1 \<le> T_mult \<lparr>CosineAnnealingWarmRestarts.max_lr = 1, min_lr = 0, warmup_steps = 10, T_mult = 1\<rparr>
   \<and> (0::int) \<le> 25
   \<and> CosineAnnealingWarmRestarts_call
        \<lparr>CosineAnnealingWarmRestarts.max_lr = 1, min_lr = 0, warmup_steps = 10, T_mult = 1\<rparr> 25
       = Some (Inr 0.5)
   \<and> (1::int) \<le> 2
   \<and> CosineAnnealingWarmRestarts_call
        \<lparr>CosineAnnealingWarmRestarts.max_lr = 1, min_lr = 0, warmup_steps = 10, T_mult = 2\<rparr> 25
       = Some (Inr 0.5)
   \<and> CosineAnnealingWarmRestarts_call
        \<lparr>CosineAnnealingWarmRestarts.max_lr = 1, min_lr = 0, warmup_steps = 10, T_mult = 1\<rparr> 35
       = Some (Inr 0.5)"
  using CosineAnnealingWarmRestarts_fixed_modulo
    [of "\<lparr>CosineAnnealingWarmRestarts.max_lr = 1, min_lr = 0, warmup_steps = 10, T_mult = 1\<rparr>" 25]
  by simp

section \<open>Properties of rounding\<close>

subsection \<open>rhe\<close>

lemma rhe_of_int [simp]: "rhe (of_int n) = n"
  by (simp add: rhe_def)

lemma rhe_bounds: "y - 1 / 2 \<le> of_int (rhe y) \<and> of_int (rhe y) \<le> y + 1 / 2"
  unfolding rhe_def Let_def by (auto; linarith)

lemma rhe_ge_int:
  assumes "of_int n \<le> y"
  shows "n \<le> rhe y"
proof -
  from assms have "n \<le> \<lfloor>y\<rfloor>" by (simp add: le_floor_iff)
  then show ?thesis
    unfolding rhe_def Let_def by auto
qed

lemma rhe_le_int:
  assumes "y \<le> of_int n"
  shows "rhe y \<le> n"
proof (cases "y = of_int n")
  case True
  then show ?thesis by simp
next
  case False
  with assms have "y < of_int n" by simp
  then have "\<lfloor>y\<rfloor> < n" by (simp add: floor_less_iff)
  then have "\<lfloor>y\<rfloor> + 1 \<le> n" by simp
  then show ?thesis
    unfolding rhe_def Let_def by auto
qed

lemma rhe_mono:
  assumes "x \<le> y"
  shows "rhe x \<le> rhe y"
proof (cases "\<lfloor>x\<rfloor> = \<lfloor>y\<rfloor>")
  case True
  with assms show ?thesis
    unfolding rhe_def Let_def by auto
next
  case False
  with assms have "\<lfloor>x\<rfloor> < \<lfloor>y\<rfloor>"
    using floor_mono [of x y] by simp
  then have "\<lfloor>x\<rfloor> + 1 \<le> \<lfloor>y\<rfloor>" by simp
  moreover have "rhe x \<le> \<lfloor>x\<rfloor> + 1"
    unfolding rhe_def Let_def by auto
  moreover have "\<lfloor>y\<rfloor> \<le> rhe y"
    unfolding rhe_def Let_def by auto
  ultimately show ?thesis by linarith
qed

lemma rhe_minus: "rhe (- y) = - rhe y"
proof (cases "y = of_int \<lfloor>y\<rfloor>")
  case True
  then have "rhe y = \<lfloor>y\<rfloor>"
    by (metis rhe_of_int)
  moreover from True have "- y = of_int (- \<lfloor>y\<rfloor>)" by simp
  then have "rhe (- y) = - \<lfloor>y\<rfloor>"
    by (metis rhe_of_int)
  ultimately show ?thesis by simp
next
  case False
  then have lt: "of_int \<lfloor>y\<rfloor> < y"
    using of_int_floor_le [of y] by linarith
  have up: "y < of_int \<lfloor>y\<rfloor> + 1" by linarith
  have fl: "\<lfloor>- y\<rfloor> = - \<lfloor>y\<rfloor> - 1"
  proof (rule floor_unique)
    have conv: "(of_int (- \<lfloor>y\<rfloor> - 1) :: real) = - of_int \<lfloor>y\<rfloor> - 1" by simp
    show "of_int (- \<lfloor>y\<rfloor> - 1) \<le> - y" unfolding conv using up by linarith
    show "- y < of_int (- \<lfloor>y\<rfloor> - 1) + 1" unfolding conv using lt by linarith
  qed
  show ?thesis
    unfolding rhe_def Let_def fl using lt by (auto simp: algebra_simps)
qed

subsection \<open>The exponent\<close>

lemma find_ex_spec:
  "e \<le> find_ex n e a \<and> find_ex n e a \<le> e + int n
   \<and> (find_ex n e a < e + int n \<longrightarrow> a < 2 powi (find_ex n e a + 1))
   \<and> (e < find_ex n e a \<longrightarrow> 2 powi (find_ex n e a) \<le> a)"
proof (induction n arbitrary: e)
  case 0
  then show ?case by simp
next
  case (Suc n)
  show ?case
  proof (cases "a < 2 powi (e + 1)")
    case True
    then show ?thesis by simp
  next
    case False
    then have eq: "find_ex (Suc n) e a = find_ex n (e + 1) a" by simp
    define f where "f = find_ex n (e + 1) a"
    from Suc [of "e + 1"] have ih: "e + 1 \<le> f" "f \<le> e + 1 + int n"
      "f < e + 1 + int n \<longrightarrow> a < 2 powi (f + 1)" "e + 1 < f \<longrightarrow> 2 powi f \<le> a"
      by (simp_all add: f_def)
    have "2 powi f \<le> a"
    proof (cases "f = e + 1")
      case True
      with False show ?thesis by simp
    next
      case False
      with ih show ?thesis by simp
    qed
    with ih show ?thesis
      unfolding eq f_def [symmetric] by simp
  qed
qed

lemma ex_of_range: "- 1022 \<le> ex_of x \<and> ex_of x \<le> 1024"
  using find_ex_spec [of "- 1022" 2046 "\<bar>x\<bar>"] by (simp add: ex_of_def)

lemma ex_of_upper: "ex_of x < 1024 \<Longrightarrow> \<bar>x\<bar> < 2 powi (ex_of x + 1)"
  using find_ex_spec [of "- 1022" 2046 "\<bar>x\<bar>"] by (simp add: ex_of_def)

lemma ex_of_lower: "- 1022 < ex_of x \<Longrightarrow> 2 powi (ex_of x) \<le> \<bar>x\<bar>"
  using find_ex_spec [of "- 1022" 2046 "\<bar>x\<bar>"] by (simp add: ex_of_def)

lemma ex_of_eq:
  assumes lo: "- 1022 \<le> e" and hi: "e \<le> 1024"
    and ge: "e = - 1022 \<or> 2 powi e \<le> \<bar>x\<bar>"
    and lt: "e = 1024 \<or> \<bar>x\<bar> < 2 powi (e + 1)"
  shows "ex_of x = e"
proof (rule ccontr)
  assume ne: "ex_of x \<noteq> e"
  show False
  proof (cases "ex_of x < e")
    case True
    with hi have "ex_of x < 1024" by simp
    then have "\<bar>x\<bar> < 2 powi (ex_of x + 1)" by (rule ex_of_upper)
    also have "(2::real) powi (ex_of x + 1) \<le> 2 powi e"
      using True by (intro power_int_increasing) simp_all
    finally have "\<bar>x\<bar> < 2 powi e" .
    moreover from True ex_of_range [of x] have "e \<noteq> - 1022" by simp
    ultimately show False using ge by simp
  next
    case False
    with ne have gt: "e < ex_of x" by simp
    with lo have "- 1022 < ex_of x" by simp
    then have "2 powi (ex_of x) \<le> \<bar>x\<bar>" by (rule ex_of_lower)
    moreover have "(2::real) powi (e + 1) \<le> 2 powi (ex_of x)"
      using gt by (intro power_int_increasing) simp_all
    moreover from gt ex_of_range [of x] have "e \<noteq> 1024" by simp
    ultimately show False using lt by simp
  qed
qed

lemma ex_of_minus [simp]: "ex_of (- x) = ex_of x"
  by (simp add: ex_of_def)

lemma ex_of_abs [simp]: "ex_of \<bar>x\<bar> = ex_of x"
  by (simp add: ex_of_def)

lemma ex_of_mono:
  assumes "\<bar>x\<bar> \<le> \<bar>y\<bar>"
  shows "ex_of x \<le> ex_of y"
proof (rule ccontr)
  assume "\<not> ex_of x \<le> ex_of y"
  then have gt: "ex_of y < ex_of x" by simp
  with ex_of_range [of x] ex_of_range [of y] have "ex_of y < 1024" "- 1022 < ex_of x" by simp_all
  then have "\<bar>y\<bar> < 2 powi (ex_of y + 1)" "2 powi (ex_of x) \<le> \<bar>x\<bar>"
    by (simp_all add: ex_of_upper ex_of_lower)
  moreover have "(2::real) powi (ex_of y + 1) \<le> 2 powi (ex_of x)"
    using gt by (intro power_int_increasing) simp_all
  ultimately show False using assms by linarith
qed

subsection \<open>Rounding at a fixed exponent\<close>

lemma ulp_pos [simp]: "0 < (2::real) powi k"
  by simp

lemma rnd_at_minus: "rnd_at e (- x) = - rnd_at e x"
  by (simp add: rnd_at_def rhe_minus)

lemma rnd_at_mono: "x \<le> y \<Longrightarrow> rnd_at e x \<le> rnd_at e y"
  unfolding rnd_at_def
  by (intro mult_right_mono) (simp_all add: rhe_mono divide_right_mono)

lemma rnd_at_grid:
  assumes "x = of_int n * 2 powi (e - 52)"
  shows "rnd_at e x = x"
  by (simp add: rnd_at_def assms)

lemma rnd_at_ge_grid:
  assumes "of_int n * 2 powi (e - 52) \<le> x"
  shows "of_int n * 2 powi (e - 52) \<le> rnd_at e x"
  using rnd_at_mono [OF assms, of e] by (simp add: rnd_at_grid)

lemma rnd_at_le_grid:
  assumes "x \<le> of_int n * 2 powi (e - 52)"
  shows "rnd_at e x \<le> of_int n * 2 powi (e - 52)"
  using rnd_at_mono [OF assms, of e] by (simp add: rnd_at_grid)

lemma pow_split: "(2::real) powi e = of_int (2 ^ 52) * 2 powi (e - 52)"
proof -
  have "(2::real) powi e = 2 powi (52 + (e - 52))" by simp
  also have "\<dots> = 2 powi 52 * 2 powi (e - 52)"
    by (subst power_int_add) simp_all
  finally show ?thesis by simp
qed

lemma pow_split_next: "(2::real) powi (e + 1) = of_int (2 ^ 53) * 2 powi (e - 52)"
proof -
  have "e + 1 = 53 + (e - 52)" by simp
  then have "(2::real) powi (e + 1) = 2 powi (53 + (e - 52))" by (rule arg_cong)
  also have "\<dots> = 2 powi 53 * 2 powi (e - 52)"
    by (subst power_int_add) simp_all
  finally show ?thesis by simp
qed

lemma rnd_at_ge_pow: "2 powi e \<le> x \<Longrightarrow> 2 powi e \<le> rnd_at e x"
  using rnd_at_ge_grid [of "2 ^ 52" e x] by (simp only: pow_split [symmetric])

lemma rnd_at_le_pow: "x \<le> 2 powi (e + 1) \<Longrightarrow> rnd_at e x \<le> 2 powi (e + 1)"
  using rnd_at_le_grid [of x "2 ^ 53" e] by (simp only: pow_split_next [symmetric])

lemma rnd_at_nonneg: "0 \<le> x \<Longrightarrow> 0 \<le> rnd_at e x"
  using rnd_at_ge_grid [of 0 e x] by simp

subsection \<open>Rounding\<close>

lemma rnd_fin_minus: "rnd_fin (- x) = - rnd_fin x"
  by (simp add: rnd_fin_def rnd_at_minus)

lemma rhe_0 [simp]: "rhe 0 = 0"
  using rhe_of_int [of 0] by simp

lemma rnd_fin_0 [simp]: "rnd_fin 0 = 0"
  by (simp add: rnd_fin_def rnd_at_def)

lemma rnd_fin_nonneg: "0 \<le> x \<Longrightarrow> 0 \<le> rnd_fin x"
  by (simp add: rnd_fin_def rnd_at_nonneg)

lemma rnd_fin_nonpos: "x \<le> 0 \<Longrightarrow> rnd_fin x \<le> 0"
  using rnd_fin_nonneg [of "- x"] by (simp add: rnd_fin_minus)

lemma rnd_fin_eval:
  assumes "- 1022 \<le> e" and "e \<le> 1024"
    and "e = - 1022 \<or> 2 powi e \<le> \<bar>x\<bar>"
    and "e = 1024 \<or> \<bar>x\<bar> < 2 powi (e + 1)"
  shows "rnd_fin x = rnd_at e x"
  by (simp add: rnd_fin_def ex_of_eq [OF assms])

text \<open>A positive value is bounded below and above by the doubles around it.\<close>

lemma rnd_fin_ge:
  assumes a: "rnd_fin a = a" and pos: "0 < a" and le: "a \<le> x"
  shows "a \<le> rnd_fin x"
proof -
  from pos le have "\<bar>a\<bar> \<le> \<bar>x\<bar>" by simp
  then have ex: "ex_of a \<le> ex_of x" by (rule ex_of_mono)
  show ?thesis
  proof (cases "ex_of a = ex_of x")
    case True
    have "rnd_at (ex_of x) a \<le> rnd_at (ex_of x) x"
      using le by (rule rnd_at_mono)
    with a True show ?thesis by (simp add: rnd_fin_def)
  next
    case False
    with ex have lt: "ex_of a < ex_of x" by simp
    with ex_of_range [of a] ex_of_range [of x] have "ex_of a < 1024" "- 1022 < ex_of x" by simp_all
    then have "\<bar>a\<bar> < 2 powi (ex_of a + 1)" "2 powi (ex_of x) \<le> \<bar>x\<bar>"
      by (simp_all add: ex_of_upper ex_of_lower)
    moreover have "(2::real) powi (ex_of a + 1) \<le> 2 powi (ex_of x)"
      using lt by (intro power_int_increasing) simp_all
    moreover from pos le have "\<bar>x\<bar> = x" "\<bar>a\<bar> = a" by simp_all
    ultimately have "a \<le> 2 powi (ex_of x)" "2 powi (ex_of x) \<le> x" by simp_all
    with rnd_at_ge_pow [of "ex_of x" x] show ?thesis
      by (simp add: rnd_fin_def)
  qed
qed

lemma rnd_fin_le:
  assumes b: "rnd_fin b = b" and pos: "0 \<le> x" and le: "x \<le> b"
  shows "rnd_fin x \<le> b"
proof -
  from pos le have "\<bar>x\<bar> \<le> \<bar>b\<bar>" by simp
  then have ex: "ex_of x \<le> ex_of b" by (rule ex_of_mono)
  show ?thesis
  proof (cases "ex_of x = ex_of b")
    case True
    have "rnd_at (ex_of b) x \<le> rnd_at (ex_of b) b"
      using le by (rule rnd_at_mono)
    with b True show ?thesis by (simp add: rnd_fin_def)
  next
    case False
    with ex have lt: "ex_of x < ex_of b" by simp
    with ex_of_range [of x] ex_of_range [of b] have "ex_of x < 1024" "- 1022 < ex_of b" by simp_all
    then have "\<bar>x\<bar> < 2 powi (ex_of x + 1)" "2 powi (ex_of b) \<le> \<bar>b\<bar>"
      by (simp_all add: ex_of_upper ex_of_lower)
    moreover have "(2::real) powi (ex_of x + 1) \<le> 2 powi (ex_of b)"
      using lt by (intro power_int_increasing) simp_all
    moreover from pos le have "\<bar>x\<bar> = x" "\<bar>b\<bar> = b" by simp_all
    ultimately have "x \<le> 2 powi (ex_of x + 1)" "2 powi (ex_of x + 1) \<le> b" by simp_all
    with rnd_at_le_pow [of x "ex_of x"] show ?thesis
      by (simp add: rnd_fin_def)
  qed
qed

lemma rnd_fin_repr:
  assumes x: "x = of_int n * 2 powi k" and n: "\<bar>n\<bar> < 2 ^ 53" and k: "- 1074 \<le> k"
  shows "rnd_fin x = x"
proof -
  define e where "e = ex_of x"
  have le: "e \<le> k + 52"
  proof (rule ccontr)
    assume "\<not> e \<le> k + 52"
    then have big: "k + 53 \<le> e" by simp
    with k have "- 1022 < ex_of x" by (simp add: e_def)
    then have "2 powi e \<le> \<bar>x\<bar>" unfolding e_def by (rule ex_of_lower)
    moreover have "\<bar>x\<bar> = of_int \<bar>n\<bar> * 2 powi k"
      by (simp add: x abs_mult)
    moreover have "of_int \<bar>n\<bar> * (2::real) powi k < of_int (2 ^ 53) * 2 powi k"
      using n by (intro mult_strict_right_mono) (simp_all only: of_int_less_iff ulp_pos)
    moreover have "of_int (2 ^ 53) * (2::real) powi k = 2 powi (k + 53)"
      using pow_split_next [of "k + 52"] by (simp add: add.commute)
    moreover have "(2::real) powi (k + 53) \<le> 2 powi e"
      using big by (intro power_int_increasing) simp_all
    ultimately show False by linarith
  qed
  have "(2::real) powi k = 2 powi ((k - (e - 52)) + (e - 52))" by simp
  also have "\<dots> = 2 powi (k - (e - 52)) * 2 powi (e - 52)"
    by (subst power_int_add) simp_all
  also have "(2::real) powi (k - (e - 52)) = 2 ^ nat (k - (e - 52))"
    using le by (intro power_int_nonneg_exp) simp
  finally have "x = of_int (n * 2 ^ nat (k - (e - 52))) * 2 powi (e - 52)"
    by (simp add: x)
  then have "rnd_at e x = x" by (rule rnd_at_grid)
  then show ?thesis by (simp add: rnd_fin_def e_def)
qed

lemma rnd_fin_of_int:
  assumes "\<bar>n\<bar> \<le> 2 ^ 53"
  shows "rnd_fin (of_int n) = of_int n"
proof (cases "\<bar>n\<bar> = 2 ^ 53")
  case True
  then have "n = 2 ^ 53 \<or> n = - (2 ^ 53)" by linarith
  then have "(of_int n :: real) = of_int (n div 2) * 2 powi 1" by auto
  then show ?thesis by (rule rnd_fin_repr) (use True in simp_all)
next
  case False
  with assms have "\<bar>n\<bar> < 2 ^ 53" by simp
  moreover have "(of_int n :: real) = of_int n * 2 powi 0" by simp
  ultimately show ?thesis by (intro rnd_fin_repr [where n = n and k = 0]) simp_all
qed

lemma rnd_fin_pow2:
  assumes "- 1074 \<le> k"
  shows "rnd_fin (2 powi k) = 2 powi k"
  by (rule rnd_fin_repr [where n = 1 and k = k]) (use assms in simp_all)

lemma rhe_abs_bound:
  assumes "\<bar>y\<bar> < 2 ^ 53"
  shows "\<bar>rhe y\<bar> \<le> 2 ^ 53"
proof -
  from assms have "y \<le> of_int (2 ^ 53)" "of_int (- (2 ^ 53)) \<le> y" by simp_all
  then have "rhe y \<le> 2 ^ 53" "- (2 ^ 53) \<le> rhe y"
    by (simp_all only: rhe_le_int rhe_ge_int)
  then show ?thesis by simp
qed

lemma rnd_fin_idem:
  assumes small: "\<bar>rnd_fin x\<bar> < 2 ^ 1024"
  shows "rnd_fin (rnd_fin x) = rnd_fin x"
proof -
  define e where "e = ex_of x"
  define N where "N = rhe (x / 2 powi (e - 52))"
  have y: "rnd_fin x = of_int N * 2 powi (e - 52)"
    by (simp add: rnd_fin_def rnd_at_def e_def N_def)
  have range: "- 1022 \<le> e" "e \<le> 1024"
    using ex_of_range [of x] by (simp_all add: e_def)
  have e: "e < 1024"
  proof (rule ccontr)
    assume "\<not> e < 1024"
    with range have top: "e = 1024" by simp
    then have "2 powi 1024 \<le> \<bar>x\<bar>"
      using ex_of_lower [of x] by (simp add: e_def)
    then have "2 powi 1024 \<le> \<bar>rnd_at 1024 x\<bar>"
      using rnd_at_ge_pow [of 1024 "\<bar>x\<bar>"] rnd_at_minus [of 1024 x]
      by (cases "0 \<le> x") (simp_all add: abs_if)
    with small top show False
      by (simp add: rnd_fin_def e_def)
  qed
  then have "\<bar>x\<bar> < 2 powi (e + 1)"
    unfolding e_def by (rule ex_of_upper)
  then have "\<bar>x\<bar> < of_int (2 ^ 53) * 2 powi (e - 52)"
    by (simp only: pow_split_next)
  then have "\<bar>x / 2 powi (e - 52)\<bar> < 2 ^ 53"
    by (simp add: abs_divide pos_divide_less_eq)
  then have N: "\<bar>N\<bar> \<le> 2 ^ 53"
    unfolding N_def by (rule rhe_abs_bound)
  show ?thesis
  proof (cases "\<bar>N\<bar> = 2 ^ 53")
    case False
    with N have "\<bar>N\<bar> < 2 ^ 53" by simp
    with y range show ?thesis
      by (intro rnd_fin_repr [where n = N and k = "e - 52"]) simp_all
  next
    case True
    then have "N = 2 ^ 53 \<or> N = - (2 ^ 53)" by linarith
    then have "(of_int N :: real) = of_int (N div 2) * 2" by auto
    moreover have "(2::real) * 2 powi (e - 52) = 2 powi (e - 51)"
      using power_int_add [of "2::real" 1 "e - 52"] by (simp add: add.commute)
    ultimately have "rnd_fin x = of_int (N div 2) * 2 powi (e - 51)"
      by (simp add: y mult.assoc)
    with range True show ?thesis
      by (intro rnd_fin_repr [where n = "N div 2" and k = "e - 51"]) simp_all
  qed
qed

subsection \<open>Rounding with overflow\<close>

lemma rnd_Fin_iff: "rnd x = Fin y \<longleftrightarrow> rnd_fin x = y \<and> \<bar>y\<bar> < 2 ^ 1024"
  by (auto simp: rnd_def Let_def)

lemma rnd_0 [simp]: "rnd 0 = Fin 0"
  by (simp add: rnd_def)

lemma rnd_is_f64: "rnd x = Fin y \<Longrightarrow> is_f64 y"
  using rnd_fin_idem [of x] by (auto simp: is_f64_def rnd_Fin_iff)

lemma is_f64_rnd: "is_f64 y \<Longrightarrow> rnd y = Fin y"
  by (simp add: is_f64_def)

lemma is_f64_iff: "is_f64 y \<longleftrightarrow> rnd_fin y = y \<and> \<bar>y\<bar> < 2 ^ 1024"
  by (simp add: is_f64_def rnd_Fin_iff)

lemma is_f64_minus: "is_f64 y \<Longrightarrow> is_f64 (- y)"
  by (simp add: is_f64_iff rnd_fin_minus)

lemma is_f64_of_int: "\<bar>n\<bar> \<le> 2 ^ 53 \<Longrightarrow> is_f64 (of_int n)"
proof -
  assume n: "\<bar>n\<bar> \<le> 2 ^ 53"
  then have "\<bar>of_int n :: real\<bar> \<le> of_int (2 ^ 53)"
    by (simp only: of_int_abs [symmetric] of_int_le_iff)
  then have "\<bar>of_int n :: real\<bar> < 2 ^ 1024" by simp
  with n show ?thesis by (simp add: is_f64_iff rnd_fin_of_int)
qed

lemma rnd_evalI:
  assumes "- 1022 \<le> e" and "e \<le> 1023"
    and "e = - 1022 \<or> 2 powi e \<le> \<bar>x\<bar>"
    and "\<bar>x\<bar> < 2 powi (e + 1)"
    and "rnd_at e x = y" and "\<bar>y\<bar> < 2 ^ 1024"
  shows "rnd x = Fin y"
proof -
  have "rnd_fin x = rnd_at e x"
    using assms(1-4) by (intro rnd_fin_eval) simp_all
  with assms(5,6) show ?thesis by (simp add: rnd_Fin_iff)
qed

lemma float_literal_eq: "rnd x = Fin y \<Longrightarrow> float_literal x = y"
  by (simp add: float_literal_def rnd_Fin_iff)

lemma rhe_gt_half:
  assumes "of_int n + 1 / 2 < y"
  shows "n + 1 \<le> rhe y"
proof -
  from assms have "of_int n \<le> y" by simp
  then have fl: "n \<le> \<lfloor>y\<rfloor>" by (simp add: le_floor_iff)
  show ?thesis
  proof (cases "n = \<lfloor>y\<rfloor>")
    case True
    with assms have "1 / 2 < y - of_int \<lfloor>y\<rfloor>" by simp
    then show ?thesis
      unfolding rhe_def Let_def using True by auto
  next
    case False
    with fl have "n + 1 \<le> \<lfloor>y\<rfloor>" by simp
    moreover have "\<lfloor>y\<rfloor> \<le> rhe y"
      unfolding rhe_def Let_def by auto
    ultimately show ?thesis by simp
  qed
qed

lemma pow_1023_less: "(2::real) powi 1023 < 2 ^ 1024"
proof -
  have "(2::real) powi 1023 = 2 ^ 1023" by simp
  also have "\<dots> < 2 ^ 1024" by (rule power_strict_increasing) simp_all
  finally show ?thesis .
qed

lemma rnd_fin_abs: "\<bar>rnd_fin x\<bar> = rnd_fin \<bar>x\<bar>"
  by (cases "0 \<le> x") (simp_all add: abs_if rnd_fin_minus rnd_fin_nonneg rnd_fin_nonpos not_le
      order.strict_implies_order rnd_fin_0 dual_order.antisym)

lemma rnd_finite:
  assumes "\<bar>x\<bar> \<le> 2 powi 1023"
  shows "rnd x = Fin (rnd_fin x) \<and> \<bar>rnd_fin x\<bar> \<le> 2 powi 1023"
proof -
  have "rnd_fin \<bar>x\<bar> \<le> 2 powi 1023"
    using assms by (intro rnd_fin_le rnd_fin_pow2) simp_all
  then have b: "\<bar>rnd_fin x\<bar> \<le> 2 powi 1023"
    by (simp add: rnd_fin_abs)
  with pow_1023_less have "\<bar>rnd_fin x\<bar> < 2 ^ 1024" by linarith
  with b show ?thesis by (simp add: rnd_Fin_iff)
qed

lemma rnd_overflow:
  assumes "2 ^ 1024 \<le> x"
  shows "rnd x = PInf"
proof -
  have "(2::real) powi 1024 \<le> rnd_fin x"
    using assms by (intro rnd_fin_ge rnd_fin_pow2) simp_all
  then show ?thesis by (simp add: rnd_def)
qed

lemma rnd_nonpos:
  assumes "x \<le> 0"
  shows "(\<exists>y. rnd x = Fin y \<and> y \<le> 0) \<or> rnd x = NInf"
  using rnd_fin_nonpos [OF assms] by (auto simp: rnd_def Let_def)

lemma rnd_le_neg:
  assumes a: "rnd_fin a = a" and pos: "0 < a" and le: "x \<le> - a"
  shows "(\<exists>y. rnd x = Fin y \<and> y \<le> - a) \<or> rnd x = NInf"
proof -
  have "a \<le> rnd_fin (- x)"
    using a pos le by (intro rnd_fin_ge) simp_all
  then have "rnd_fin x \<le> - a" by (simp add: rnd_fin_minus)
  with pos show ?thesis by (auto simp: rnd_def Let_def)
qed

lemma f64_sub_Fin [simp]: "f64_sub (Fin a) (Fin b) = rnd (a - b)"
  by (simp add: f64_sub_def)

lemma f64_mul_one_right: "f64_mul (rnd x) (Fin 1) = rnd x"
proof (cases "rnd x")
  case (Fin y)
  then have "rnd y = Fin y" using rnd_is_f64 [of x y] by (simp add: is_f64_def)
  with Fin show ?thesis by simp
qed simp_all

lemma f64_mul_one_left: "f64_mul (Fin 1) (rnd x) = rnd x"
proof (cases "rnd x")
  case (Fin y)
  then have "rnd y = Fin y" using rnd_is_f64 [of x y] by (simp add: is_f64_def)
  with Fin show ?thesis by simp
qed simp_all

lemma rnd_of_int: "\<bar>n\<bar> \<le> 2 ^ 53 \<Longrightarrow> rnd (of_int n) = Fin (of_int n)"
  using is_f64_of_int [of n] by (simp add: is_f64_def)

lemma rnd_1 [simp]: "rnd 1 = Fin 1"
  using rnd_of_int [of 1] by simp

lemma rnd_2 [simp]: "rnd 2 = Fin 2"
  using rnd_of_int [of 2] by simp

lemma rnd_neg_1 [simp]: "rnd (- 1) = Fin (- 1)"
  using rnd_of_int [of "- 1"] by simp

lemma rnd_neg_2 [simp]: "rnd (- 2) = Fin (- 2)"
  using rnd_of_int [of "- 2"] by simp

lemma rnd_half_int:
  assumes "\<bar>n\<bar> < 2 ^ 53"
  shows "rnd (of_int n / 2) = Fin (of_int n / 2)"
proof -
  have x: "(of_int n / 2 :: real) = of_int n * 2 powi (- 1)" by simp
  then have "rnd_fin (of_int n / 2) = of_int n / 2"
    by (rule rnd_fin_repr) (use assms in simp_all)
  moreover have "\<bar>of_int n / 2 :: real\<bar> < 2 ^ 1024"
  proof -
    from assms have "\<bar>of_int n :: real\<bar> < of_int (2 ^ 53)"
      by (simp only: of_int_abs [symmetric] of_int_less_iff)
    then have "\<bar>of_int n / 2 :: real\<bar> < 2 ^ 53" by simp
    also have "(2::real) ^ 53 < 2 ^ 1024" by (rule power_strict_increasing) simp_all
    finally show ?thesis .
  qed
  ultimately show ?thesis by (simp add: rnd_Fin_iff)
qed

lemma float_of_int_bounds:
  assumes "1 \<le> n" and "n \<le> 2 ^ 1023"
  shows "\<exists>f. float_of_int n = Inr (Fin f) \<and> rnd (of_int n) = Fin f \<and> 1 \<le> f \<and> f \<le> 2 powi 1023"
proof -
  have up: "\<bar>of_int n :: real\<bar> \<le> 2 powi 1023"
  proof -
    from assms have "(of_int n :: real) \<le> of_int (2 ^ 1023)"
      by (simp only: of_int_le_iff)
    with assms show ?thesis by simp
  qed
  from rnd_finite [OF up] have fin: "rnd (of_int n) = Fin (rnd_fin (of_int n))"
    and b: "\<bar>rnd_fin (of_int n)\<bar> \<le> 2 powi 1023" by simp_all
  have "rnd_fin 1 = 1" using rnd_fin_of_int [of 1] by simp
  then have "1 \<le> rnd_fin (of_int n)"
    using assms by (intro rnd_fin_ge) simp_all
  with fin b show ?thesis by (simp add: float_of_int_def)
qed

lemma is_f64_pos_ge_min:
  assumes "is_f64 x" and "0 < x"
  shows "2 powi (- 1074) \<le> x"
proof -
  define e where "e = ex_of x"
  define N where "N = rhe (x / 2 powi (e - 52))"
  from assms have x: "x = of_int N * 2 powi (e - 52)"
    by (simp add: is_f64_iff rnd_fin_def rnd_at_def e_def N_def)
  with assms(2) have "0 < of_int N * (2::real) powi (e - 52)" by simp
  then have "(0::real) < of_int N" by (rule zero_less_mult_pos2) simp
  then have "0 < N" by simp
  then have "1 \<le> N" by simp
  then have "(1::real) \<le> of_int N" by simp
  then have A: "(2::real) powi (e - 52) \<le> of_int N * 2 powi (e - 52)"
    using mult_right_mono [of 1 "of_int N" "(2::real) powi (e - 52)"] by simp
  have B: "(2::real) powi (- 1074) \<le> 2 powi (e - 52)"
    using ex_of_range [of x] by (intro power_int_increasing) (simp_all add: e_def)
  show ?thesis
    by (subst x) (rule order_trans [OF B A])
qed

lemma is_f64_less_1:
  assumes "is_f64 x" and "x < 1"
  shows "x \<le> 1 - 2 powi (- 53)"
proof (cases "x < 1 / 2")
  case True
  then show ?thesis by simp
next
  case False
  then have "2 powi (- 1) \<le> \<bar>x\<bar>" "\<bar>x\<bar> < 2 powi (- 1 + 1)"
    using assms(2) by simp_all
  then have e: "ex_of x = - 1"
    by (intro ex_of_eq) simp_all
  define N where "N = rhe (x / 2 powi (- 53))"
  from assms(1) e have x: "x = of_int N * 2 powi (- 53)"
    by (simp add: is_f64_iff rnd_fin_def rnd_at_def N_def)
  with assms(2) have "of_int N * (2::real) powi (- 53) < 2 ^ 53 * 2 powi (- 53)" by simp
  then have "(of_int N :: real) < 2 ^ 53"
    by (simp only: mult_less_cancel_right_pos ulp_pos)
  then have "(of_int N :: real) < of_int (2 ^ 53)" by simp
  then have "N < 2 ^ 53" by (simp only: of_int_less_iff)
  then have "N \<le> 2 ^ 53 - 1" by simp
  then have "(of_int N :: real) \<le> of_int (2 ^ 53 - 1)" by (simp only: of_int_le_iff)
  then have "of_int N * (2::real) powi (- 53) \<le> of_int (2 ^ 53 - 1) * 2 powi (- 53)"
    by (intro mult_right_mono) simp_all
  with x show ?thesis by simp
qed

lemma rnd_above_one:
  assumes "1 + 2 powi (- 53) < x"
  shows "1 + 2 powi (- 52) \<le> rnd_fin x"
proof (cases "1 + 2 powi (- 52) \<le> x")
  case True
  have "(1 + 2 powi (- 52) :: real) = of_int (2 ^ 52 + 1) * 2 powi (- 52)"
    by simp
  then have "rnd_fin (1 + 2 powi (- 52)) = 1 + 2 powi (- 52)"
    by (rule rnd_fin_repr) simp_all
  then show ?thesis
    using True by (intro rnd_fin_ge) simp_all
next
  case False
  with assms have "2 powi 0 \<le> \<bar>x\<bar>" "\<bar>x\<bar> < 2 powi (0 + 1)" by simp_all
  then have "rnd_fin x = rnd_at 0 x"
    by (intro rnd_fin_eval) simp_all
  moreover have "of_int (2 ^ 52) + 1 / 2 < x / 2 powi (0 - 52)"
    using assms by (simp add: field_simps)
  then have "2 ^ 52 + 1 \<le> rhe (x / 2 powi (0 - 52))"
    by (rule rhe_gt_half)
  then have "(of_int (2 ^ 52 + 1) :: real) \<le> of_int (rhe (x / 2 powi (0 - 52)))"
    by (simp only: of_int_le_iff)
  then have "of_int (2 ^ 52 + 1) * 2 powi (0 - 52) \<le> rnd_at 0 x"
    unfolding rnd_at_def by (intro mult_right_mono) simp_all
  ultimately show ?thesis by simp
qed

lemma rnd_diff_finite:
  assumes "\<bar>a - b\<bar> \<le> 2 ^ 1023"
  shows "\<exists>d. rnd (a - b) = Fin d"
proof -
  from assms have "\<bar>a - b\<bar> \<le> 2 powi 1023" by simp
  from rnd_finite [OF this] show ?thesis by blast
qed

subsection \<open>Roundings of the numbers that occur in the examples\<close>

text \<open>
  Each lemma rounds one number at its exponent: a decimal literal, or the exact result of one
  operation of a run below.
\<close>

lemma rnd_ev_1: "rnd (1 / 100) = Fin (5764607523034235 / 576460752303423488)"
  by (rule rnd_evalI [where e = "- 7"]) (simp_all add: rnd_at_def rhe_def)

lemma rnd_ev_2: "rnd (1 / 1000) = Fin (1152921504606847 / 1152921504606846976)"
  by (rule rnd_evalI [where e = "- 10"]) (simp_all add: rnd_at_def rhe_def)

lemma rnd_ev_3: "rnd (1 / 10) = Fin (3602879701896397 / 36028797018963968)"
  by (rule rnd_evalI [where e = "- 4"]) (simp_all add: rnd_at_def rhe_def)

lemma rnd_ev_4: "rnd (3 / 10) = Fin (5404319552844595 / 18014398509481984)"
  by (rule rnd_evalI [where e = "- 2"]) (simp_all add: rnd_at_def rhe_def)

lemma rnd_ev_5: "rnd (3 / 10000) = Fin (5534023222112865 / 18446744073709551616)"
  by (rule rnd_evalI [where e = "- 12"]) (simp_all add: rnd_at_def rhe_def)

lemma rnd_ev_9: "rnd (10376293541461623 / 1152921504606846976) = Fin (1297036692682703 / 144115188075855872)"
  by (rule rnd_evalI [where e = "- 7"]) (simp_all add: rnd_at_def rhe_def)

lemma rnd_ev_10: "rnd (1297036692682703 / 144115188075855872) = Fin (1297036692682703 / 144115188075855872)"
  by (rule rnd_evalI [where e = "- 7"]) (simp_all add: rnd_at_def rhe_def)

lemma rnd_ev_11: "rnd (11529215046068471 / 1152921504606846976) = Fin (1441151880758559 / 144115188075855872)"
  by (rule rnd_evalI [where e = "- 7"]) (simp_all add: rnd_at_def rhe_def)

lemma rnd_ev_12: "rnd (884279719003555 / 281474976710656) = Fin (884279719003555 / 281474976710656)"
  by (rule rnd_evalI [where e = "1"]) (simp_all add: rnd_at_def rhe_def)

lemma rnd_ev_13: "rnd (1152921504606847 / 1152921504606846976) = Fin (1152921504606847 / 1152921504606846976)"
  by (rule rnd_evalI [where e = "- 10"]) (simp_all add: rnd_at_def rhe_def)

lemma rnd_ev_14: "rnd (1 / 6) = Fin (6004799503160661 / 36028797018963968)"
  by (rule rnd_evalI [where e = "- 3"]) (simp_all add: rnd_at_def rhe_def)

lemma rnd_ev_15: "rnd (42033596522124629 / 36028797018963968) = Fin (5254199565265579 / 4503599627370496)"
  by (rule rnd_evalI [where e = "0"]) (simp_all add: rnd_at_def rhe_def)

lemma rnd_ev_16: "rnd (1 / 3) = Fin (6004799503160661 / 18014398509481984)"
  by (rule rnd_evalI [where e = "- 2"]) (simp_all add: rnd_at_def rhe_def)

lemma rnd_ev_17: "rnd (- (30023997515803307 / 18014398509481984)) = Fin (- (7505999378950827 / 4503599627370496))"
  by (rule rnd_evalI [where e = "0"]) (simp_all add: rnd_at_def rhe_def)

lemma rnd_ev_18: "rnd (- (3002399751580331 / 4503599627370496)) = Fin (- (3002399751580331 / 4503599627370496))"
  by (rule rnd_evalI [where e = "- 1"]) (simp_all add: rnd_at_def rhe_def)

lemma rnd_ev_19: "rnd (1501199875790165 / 4503599627370496) = Fin (1501199875790165 / 4503599627370496)"
  by (rule rnd_evalI [where e = "- 2"]) (simp_all add: rnd_at_def rhe_def)

lemma rnd_ev_20: "rnd (32425917317067571 / 36028797018963968) = Fin (8106479329266893 / 9007199254740992)"
  by (rule rnd_evalI [where e = "- 1"]) (simp_all add: rnd_at_def rhe_def)

lemma rnd_ev_21: "rnd (12169445762190999852448549507345 / 40564819207303340847894502572032) = Fin (2702159776422297 / 9007199254740992)"
  by (rule rnd_evalI [where e = "- 2"]) (simp_all add: rnd_at_def rhe_def)

lemma rnd_ev_22: "rnd (14411518807585585 / 36028797018963968) = Fin (900719925474099 / 2251799813685248)"
  by (rule rnd_evalI [where e = "- 2"]) (simp_all add: rnd_at_def rhe_def)

lemma rnd_ev_23: "rnd (7 / 6) = Fin (5254199565265579 / 4503599627370496)"
  by (rule rnd_evalI [where e = "0"]) (simp_all add: rnd_at_def rhe_def)

lemma rnd_ev_24: "rnd (9757799192636075 / 4503599627370496) = Fin (2439449798159019 / 1125899906842624)"
  by (rule rnd_evalI [where e = "1"]) (simp_all add: rnd_at_def rhe_def)

lemma rnd_ev_25: "rnd (7 / 3) = Fin (5254199565265579 / 2251799813685248)"
  by (rule rnd_evalI [where e = "1"]) (simp_all add: rnd_at_def rhe_def)

lemma rnd_ev_26: "rnd 4 = Fin 4"
  by (rule rnd_evalI [where e = "2"]) (simp_all add: rnd_at_def rhe_def)

lemma rnd_ev_27: "rnd (- (3752999689475413 / 2251799813685248)) = Fin (- (3752999689475413 / 2251799813685248))"
  by (rule rnd_evalI [where e = "0"]) (simp_all add: rnd_at_def rhe_def)

lemma rnd_ev_28: "rnd (- (1501199875790165 / 2251799813685248)) = Fin (- (1501199875790165 / 2251799813685248))"
  by (rule rnd_evalI [where e = "- 1"]) (simp_all add: rnd_at_def rhe_def)

lemma rnd_ev_29: "rnd (750599937895083 / 2251799813685248) = Fin (750599937895083 / 2251799813685248)"
  by (rule rnd_evalI [where e = "- 2"]) (simp_all add: rnd_at_def rhe_def)

lemma rnd_ev_30: "rnd (6084722881095503979463939387119 / 20282409603651670423947251286016) = Fin (2702159776422299 / 9007199254740992)"
  by (rule rnd_evalI [where e = "- 2"]) (simp_all add: rnd_at_def rhe_def)

lemma rnd_ev_31: "rnd (14411518807585593 / 36028797018963968) = Fin (1801439850948199 / 4503599627370496)"
  by (rule rnd_evalI [where e = "- 2"]) (simp_all add: rnd_at_def rhe_def)

lemma rnd_ev_32: "rnd (1 / 2) = Fin (1 / 2)"
  by (rule rnd_evalI [where e = "- 1"]) (simp_all add: rnd_at_def rhe_def)

lemma rnd_ev_33: "rnd (3 / 2) = Fin (3 / 2)"
  by (rule rnd_evalI [where e = "0"]) (simp_all add: rnd_at_def rhe_def)

lemma rnd_ev_36: "rnd 3 = Fin 3"
  by (rule rnd_evalI [where e = "1"]) (simp_all add: rnd_at_def rhe_def)

lemma rnd_ev_38: "rnd 100 = Fin 100"
  by (rule rnd_evalI [where e = "6"]) (simp_all add: rnd_at_def rhe_def)

lemma rnd_ev_39: "rnd (135107988821114875 / 4503599627370496) = Fin 30"
  by (rule rnd_evalI [where e = "4"]) (simp_all add: rnd_at_def rhe_def)

lemma rnd_ev_40: "rnd 70 = Fin 70"
  by (rule rnd_evalI [where e = "6"]) (simp_all add: rnd_at_def rhe_def)

lemma rnd_ev_41: "rnd (12610078956637389 / 18014398509481984) = Fin (3152519739159347 / 4503599627370496)"
  by (rule rnd_evalI [where e = "- 1"]) (simp_all add: rnd_at_def rhe_def)

lemma rnd_ev_42: "rnd (78812993478983675 / 1125899906842624) = Fin 70"
  by (rule rnd_evalI [where e = "6"]) (simp_all add: rnd_at_def rhe_def)

lemma rnd_ev_43: "rnd (8106479329266893 / 9007199254740992) = Fin (8106479329266893 / 9007199254740992)"
  by (rule rnd_evalI [where e = "- 1"]) (simp_all add: rnd_at_def rhe_def)

lemma rnd_ev_44: "rnd (900719925474099 / 9007199254740992) = Fin (900719925474099 / 9007199254740992)"
  by (rule rnd_evalI [where e = "- 4"]) (simp_all add: rnd_at_def rhe_def)

lemma rnd_ev_45: "rnd (3602879701896397 / 36028797018963968) = Fin (3602879701896397 / 36028797018963968)"
  by (rule rnd_evalI [where e = "- 4"]) (simp_all add: rnd_at_def rhe_def)

lemma rnd_ev_47: "rnd (5764607523034235 / 576460752303423488) = Fin (5764607523034235 / 576460752303423488)"
  by (rule rnd_evalI [where e = "- 7"]) (simp_all add: rnd_at_def rhe_def)

lemma rnd_ev_49: "rnd (12980742146337070512478121581609 / 1298074214633706907132624082305024) = Fin (1441151880758559 / 144115188075855872)"
  by (rule rnd_evalI [where e = "- 7"]) (simp_all add: rnd_at_def rhe_def)

lemma rnd_ev_50: "rnd (1441151880758559 / 144115188075855872) = Fin (1441151880758559 / 144115188075855872)"
  by (rule rnd_evalI [where e = "- 7"]) (simp_all add: rnd_at_def rhe_def)

lemma rnd_ev_51: "rnd (1 / 4) = Fin (1 / 4)"
  by (rule rnd_evalI [where e = "- 2"]) (simp_all add: rnd_at_def rhe_def)

lemma rnd_ev_52: "rnd (19938419936773737453685670847405 / 664613997892457936451903530140172288) = Fin (1106804644422573 / 36893488147419103232)"
  by (rule rnd_evalI [where e = "- 16"]) (simp_all add: rnd_at_def rhe_def)

lemma rnd_ev_53: "rnd (7975367974709496088278912761535 / 2658455991569831745807614120560689152) = Fin (7083549724304469 / 2361183241434822606848)"
  by (rule rnd_evalI [where e = "- 19"]) (simp_all add: rnd_at_def rhe_def)

lemma rnd_ev_54: "rnd (3987683987354747490737134169481 / 1329227995784915872903807060280344576) = Fin (1770887431076117 / 590295810358705651712)"
  by (rule rnd_evalI [where e = "- 19"]) (simp_all add: rnd_at_def rhe_def)

lemma rnd_ev_55: "rnd 1024 = Fin 1024"
  by (rule rnd_evalI [where e = "10"]) (simp_all add: rnd_at_def rhe_def)

lemma rnd_ev_56: "rnd (1 / 8) = Fin (1 / 8)"
  by (rule rnd_evalI [where e = "- 3"]) (simp_all add: rnd_at_def rhe_def)

lemma rnd_ev_57: "rnd (100000000000000001 / 100000000000000000) = Fin 1"
  by (rule rnd_evalI [where e = "0"]) (simp_all add: rnd_at_def rhe_def)

lemma rnd_ev_58: "rnd (- (1 / 2)) = Fin (- (1 / 2))"
  by (rule rnd_evalI [where e = "- 1"]) (simp_all add: rnd_at_def rhe_def)

lemmas run_defs = and_then_def float_of_int_def int_truediv_def float_truediv_def
  float_pow_int_def math_cos_def math_floor_def max_0_def f64_le_def math_pi_def
  power_divide

lemmas literals =
  float_literal_eq [OF rnd_ev_1] float_literal_eq [OF rnd_ev_2] float_literal_eq [OF rnd_ev_3]
  float_literal_eq [OF rnd_ev_4] float_literal_eq [OF rnd_ev_5]

section \<open>Properties of the rates\<close>

subsection \<open>CosineScheduler\<close>

text \<open>
  C3 says that for every \<^verbatim>\<open>CosineScheduler\<close> with \<^verbatim>\<open>warmup_iters > 0\<close> and \<^verbatim>\<open>max_iters > warmup_iters\<close> the rate at \<^verbatim>\<open>warmup_iters\<close> equals \<^verbatim>\<open>max_lr\<close> (besides rate 0 at
  iteration 0 and \<^verbatim>\<open>min_lr\<close> at \<^verbatim>\<open>max_iters\<close> and beyond). With \<^verbatim>\<open>max_lr = 0.01\<close> and \<^verbatim>\<open>min_lr = 0.001\<close> the middle branch returns
  \<open>min_lr + 1.0 * (max_lr - min_lr)\<close>, which in doubles is 0.010000000000000002, one unit in
  the last place above \<^verbatim>\<open>max_lr\<close>.
\<close>

theorem CosineScheduler_warmup_boundary_counterexample:
  "CosineScheduler_call_f64
      \<lparr>CosineScheduler.max_lr = float_literal 0.01, min_lr = float_literal 0.001,
        warmup_iters = 10, max_iters = 100\<rparr> 10
     = Inr (Fin (1441151880758559 / 144115188075855872))
   \<and> float_literal 0.01 = 5764607523034235 / 576460752303423488
   \<and> CosineScheduler_call_f64
      \<lparr>CosineScheduler.max_lr = float_literal 0.01, min_lr = float_literal 0.001,
        warmup_iters = 10, max_iters = 100\<rparr> 10
     \<noteq> Inr (Fin (float_literal 0.01))"
  by (simp add: CosineScheduler_call_f64_def run_defs Let_def
      float_literal_eq [OF rnd_ev_1] float_literal_eq [OF rnd_ev_2] rnd_ev_9 rnd_ev_10 rnd_ev_11)

text \<open>
  C3, as amended. For every \<^verbatim>\<open>CosineScheduler\<close> with \<^verbatim>\<open>0 < warmup_iters < max_iters\<close> (\<^verbatim>\<open>warmup_iters\<close> at most \<open>2 ^ 1023\<close>, \<^verbatim>\<open>min_lr\<close> a double,
  \<open>\<bar>max_lr - min_lr\<bar> \<le> 2 ^ 1023\<close>), in double arithmetic: the rate at iteration 0 is 0, the rate
  at \<^verbatim>\<open>max_iters\<close> and at every later iteration is \<^verbatim>\<open>min_lr\<close>, and the rate at \<^verbatim>\<open>warmup_iters\<close> is
  \<open>min_lr + (max_lr - min_lr)\<close> as computed in doubles, which is \<^verbatim>\<open>max_lr\<close> only up to rounding.
\<close>

theorem CosineScheduler_f64_boundaries:
  assumes w: "0 < warmup_iters self" and wbig: "warmup_iters self \<le> 2 ^ 1023"
    and m: "warmup_iters self < CosineScheduler.max_iters self"
    and min: "is_f64 (CosineScheduler.min_lr self)"
    and diff: "\<bar>CosineScheduler.max_lr self - CosineScheduler.min_lr self\<bar> \<le> 2 ^ 1023"
  shows "CosineScheduler_call_f64 self 0 = Inr (Fin 0)
    \<and> CosineScheduler_call_f64 self (warmup_iters self)
        = Inr (f64_add (Fin (CosineScheduler.min_lr self))
                 (f64_sub (Fin (CosineScheduler.max_lr self)) (Fin (CosineScheduler.min_lr self))))
    \<and> CosineScheduler_call_f64 self (CosineScheduler.max_iters self)
        = Inr (Fin (CosineScheduler.min_lr self))
    \<and> (\<forall>t. CosineScheduler.max_iters self < t
          \<longrightarrow> CosineScheduler_call_f64 self t = Inr (Fin (CosineScheduler.min_lr self)))"
proof -
  from w wbig have "1 \<le> warmup_iters self" by simp
  from float_of_int_bounds [OF this wbig] obtain fw
    where fw: "float_of_int (warmup_iters self) = Inr (Fin fw)" "1 \<le> fw" by blast
  have zero: "CosineScheduler_call_f64 self 0 = Inr (Fin 0)"
    using w fw by (simp add: CosineScheduler_call_f64_def and_then_def float_of_int_def
        float_truediv_def)
  from diff obtain d
    where d: "rnd (CosineScheduler.max_lr self - CosineScheduler.min_lr self) = Fin d"
    using rnd_diff_finite by blast
  have minr: "rnd (CosineScheduler.min_lr self) = Fin (CosineScheduler.min_lr self)"
    using min by (simp add: is_f64_def)
  have warm: "CosineScheduler_call_f64 self (warmup_iters self)
        = Inr (f64_add (Fin (CosineScheduler.min_lr self))
                 (f64_sub (Fin (CosineScheduler.max_lr self)) (Fin (CosineScheduler.min_lr self))))"
    using m f64_mul_one_left [of "CosineScheduler.max_lr self - CosineScheduler.min_lr self"]
    by (simp add: CosineScheduler_call_f64_def run_defs Let_def)
  have pi: "rnd (884279719003555 / 281474976710656) = Fin (884279719003555 / 281474976710656)"
    by (rule rnd_ev_12)
  have last: "CosineScheduler_call_f64 self (CosineScheduler.max_iters self)
        = Inr (Fin (CosineScheduler.min_lr self))"
    using m d minr by (simp add: CosineScheduler_call_f64_def run_defs Let_def pi)
  have after: "CosineScheduler_call_f64 self t = Inr (Fin (CosineScheduler.min_lr self))"
    if "CosineScheduler.max_iters self < t" for t
    using that m by (simp add: CosineScheduler_call_f64_def)
  from zero warm last after show ?thesis by blast
qed

theorem CosineScheduler_f64_boundaries_witness:
  "0 < warmup_iters \<lparr>CosineScheduler.max_lr = float_literal 0.01, min_lr = float_literal 0.001,
        warmup_iters = 10, max_iters = 100\<rparr>
   \<and> warmup_iters \<lparr>CosineScheduler.max_lr = float_literal 0.01, min_lr = float_literal 0.001,
        warmup_iters = 10, max_iters = 100\<rparr> \<le> 2 ^ 1023
   \<and> warmup_iters \<lparr>CosineScheduler.max_lr = float_literal 0.01, min_lr = float_literal 0.001,
        warmup_iters = 10, max_iters = 100\<rparr>
       < CosineScheduler.max_iters \<lparr>CosineScheduler.max_lr = float_literal 0.01,
           min_lr = float_literal 0.001, warmup_iters = 10, max_iters = 100\<rparr>
   \<and> is_f64 (float_literal 0.001)
   \<and> \<bar>float_literal 0.01 - float_literal 0.001\<bar> \<le> 2 ^ 1023
   \<and> CosineScheduler_call_f64 \<lparr>CosineScheduler.max_lr = float_literal 0.01,
        min_lr = float_literal 0.001, warmup_iters = 10, max_iters = 100\<rparr> 0 = Inr (Fin 0)
   \<and> CosineScheduler_call_f64 \<lparr>CosineScheduler.max_lr = float_literal 0.01,
        min_lr = float_literal 0.001, warmup_iters = 10, max_iters = 100\<rparr> 10
       = Inr (Fin (1441151880758559 / 144115188075855872))
   \<and> CosineScheduler_call_f64 \<lparr>CosineScheduler.max_lr = float_literal 0.01,
        min_lr = float_literal 0.001, warmup_iters = 10, max_iters = 100\<rparr> 100
       = Inr (Fin (float_literal 0.001))
   \<and> CosineScheduler_call_f64 \<lparr>CosineScheduler.max_lr = float_literal 0.01,
        min_lr = float_literal 0.001, warmup_iters = 10, max_iters = 100\<rparr> 101
       = Inr (Fin (float_literal 0.001))"
proof -
  have lits: "float_literal (1 / 100) = 5764607523034235 / 576460752303423488"
    "float_literal (1 / 1000) = 1152921504606847 / 1152921504606846976"
    by (simp_all add: float_literal_eq [OF rnd_ev_1] float_literal_eq [OF rnd_ev_2])
  have f: "is_f64 (1152921504606847 / 1152921504606846976)"
    by (simp add: is_f64_def rnd_ev_13)
  show ?thesis
    using CosineScheduler_f64_boundaries
      [of "\<lparr>CosineScheduler.max_lr = float_literal 0.01, min_lr = float_literal 0.001,
        warmup_iters = 10, max_iters = 100\<rparr>"] f
    by (simp add: lits rnd_ev_9 rnd_ev_11)
qed

subsection \<open>StepLR\<close>

lemma div_in_interval:
  fixes t m :: int
  assumes "0 < m" "int k * m \<le> t" "t < (int k + 1) * m"
  shows "t div m = int k"
proof -
  have "t = m * int k + (t - int k * m)" by simp
  moreover have "0 \<le> t - int k * m" using assms by simp
  moreover have "t - int k * m < m" using assms by (simp add: algebra_simps)
  ultimately show ?thesis
    by (metis int_div_pos_eq)
qed

text \<open>
  C8 says that the rate on \<open>[k * max_iters, (k + 1) * max_iters)\<close> is \<open>max_lr * gamma ^ k\<close> and
  that the rate at the next boundary is \<^verbatim>\<open>gamma\<close> times the rate at this one. With the default
  configuration (\<^verbatim>\<open>max_lr = 3e-4\<close>, \<^verbatim>\<open>max_iters = 100000\<close>, \<^verbatim>\<open>gamma = 0.1\<close>) the rate at 200000 is 3.0000000000000005e-06 and \<^verbatim>\<open>gamma\<close> times the
  rate at 100000 is 3e-06; and with \<^verbatim>\<open>max_lr = 1\<close>, \<^verbatim>\<open>max_iters = 1\<close>, \<^verbatim>\<open>gamma = 2.0\<close> the call at 1024 raises \<^verbatim>\<open>OverflowError\<close> instead of
  returning a rate.
\<close>

theorem StepLR_boundary_counterexample:
  "StepLR_call_f64 \<lparr>StepLR.max_lr = float_literal 0.0003, max_iters = 100000, gamma = float_literal 0.1\<rparr>
      100000 = Inr (Fin (1106804644422573 / 36893488147419103232))
   \<and> StepLR_call_f64 \<lparr>StepLR.max_lr = float_literal 0.0003, max_iters = 100000, gamma = float_literal 0.1\<rparr>
      200000 = Inr (Fin (7083549724304469 / 2361183241434822606848))
   \<and> f64_mul (Fin (float_literal 0.1)) (Fin (1106804644422573 / 36893488147419103232))
       = Fin (1770887431076117 / 590295810358705651712)
   \<and> (7083549724304469 / 2361183241434822606848 :: real) \<noteq> 1770887431076117 / 590295810358705651712
   \<and> StepLR_call_f64 \<lparr>StepLR.max_lr = 1, max_iters = 1, gamma = 2\<rparr> 1024 = Inl OverflowError"
proof -
  have "rnd (2 ^ 1024) = PInf"
    by (rule rnd_overflow) simp
  then have "StepLR_call_f64 \<lparr>StepLR.max_lr = 1, max_iters = 1, gamma = 2\<rparr> 1024 = Inl OverflowError"
    by (simp add: StepLR_call_f64_def run_defs rnd_ev_55)
  then show ?thesis
    by (simp add: StepLR_call_f64_def run_defs float_literal_eq [OF rnd_ev_3]
        float_literal_eq [OF rnd_ev_5] rnd_ev_45 rnd_ev_49 rnd_ev_52 rnd_ev_53
        rnd_ev_54)
qed

text \<open>
  C8, as amended. For every \<^verbatim>\<open>StepLR\<close> with \<^verbatim>\<open>max_iters >= 1\<close>, every \<open>k \<ge> 0\<close> and every iteration \<open>t\<close> with
  \<open>k * max_iters \<le> t < (k + 1) * max_iters\<close> the call does what \<^verbatim>\<open>max_lr * gamma ** k\<close> does in doubles: it
  returns that rate, or raises \<^verbatim>\<open>OverflowError\<close> when the power overflows. This is the result at
  \<open>k * max_iters\<close> too, so the rate is constant on each such interval; at the next boundary the
  call does what \<^verbatim>\<open>max_lr * gamma ** (k + 1)\<close> does, which is \<^verbatim>\<open>gamma\<close> times the rate before only up to rounding.
\<close>

theorem StepLR_f64_piecewise_constant:
  assumes m: "1 \<le> StepLR.max_iters self"
    and lo: "int k * StepLR.max_iters self \<le> t"
    and hi: "t < (int k + 1) * StepLR.max_iters self"
  shows "StepLR_call_f64 self t
           = and_then (float_pow_int (StepLR.gamma self) (int k))
               (\<lambda>p. Inr (f64_mul (Fin (StepLR.max_lr self)) p))
    \<and> StepLR_call_f64 self (int k * StepLR.max_iters self) = StepLR_call_f64 self t
    \<and> StepLR_call_f64 self ((int k + 1) * StepLR.max_iters self)
           = and_then (float_pow_int (StepLR.gamma self) (int k + 1))
               (\<lambda>p. Inr (f64_mul (Fin (StepLR.max_lr self)) p))"
proof -
  from m have pos: "0 < StepLR.max_iters self" by simp
  have "t div StepLR.max_iters self = int k"
    using pos lo hi by (rule div_in_interval)
  then have a: "StepLR_call_f64 self t
           = and_then (float_pow_int (StepLR.gamma self) (int k))
               (\<lambda>p. Inr (f64_mul (Fin (StepLR.max_lr self)) p))"
    using pos by (simp add: StepLR_call_f64_def)
  have b: "StepLR_call_f64 self (int k * StepLR.max_iters self)
           = and_then (float_pow_int (StepLR.gamma self) (int k))
               (\<lambda>p. Inr (f64_mul (Fin (StepLR.max_lr self)) p))"
    using pos by (simp add: StepLR_call_f64_def)
  have c: "StepLR_call_f64 self ((int k + 1) * StepLR.max_iters self)
           = and_then (float_pow_int (StepLR.gamma self) (int k + 1))
               (\<lambda>p. Inr (f64_mul (Fin (StepLR.max_lr self)) p))"
    using pos by (simp add: StepLR_call_f64_def)
  from a b c show ?thesis by simp
qed

theorem StepLR_f64_piecewise_constant_witness:
  "1 \<le> StepLR.max_iters \<lparr>StepLR.max_lr = 1, max_iters = 10, gamma = 1 / 2\<rparr>
   \<and> int 2 * StepLR.max_iters \<lparr>StepLR.max_lr = 1, max_iters = 10, gamma = 1 / 2\<rparr> \<le> 25
   \<and> 25 < (int 2 + 1) * StepLR.max_iters \<lparr>StepLR.max_lr = 1, max_iters = 10, gamma = 1 / 2\<rparr>
   \<and> StepLR_call_f64 \<lparr>StepLR.max_lr = 1, max_iters = 10, gamma = 1 / 2\<rparr> 25 = Inr (Fin (1 / 4))
   \<and> StepLR_call_f64 \<lparr>StepLR.max_lr = 1, max_iters = 10, gamma = 1 / 2\<rparr> 20 = Inr (Fin (1 / 4))
   \<and> StepLR_call_f64 \<lparr>StepLR.max_lr = 1, max_iters = 10, gamma = 1 / 2\<rparr> 30 = Inr (Fin (1 / 8))"
  using StepLR_f64_piecewise_constant
    [of "\<lparr>StepLR.max_lr = 1, max_iters = 10, gamma = 1 / 2\<rparr>" 2 25]
  by (simp add: run_defs rnd_ev_51 rnd_ev_36 rnd_ev_56)

subsection \<open>MultiStepLR\<close>

lemma milestones_passed_count:
  "milestones_passed ms t = int (length (filter (\<lambda>m. m \<le> t) ms))"
  by (induction ms) (simp_all add: milestones_passed_def)

text \<open>
  C7 says that the rate is \<open>max_lr * gamma ^ k\<close> for \<open>k\<close> the number of milestones \<open>m \<le> t\<close>, and
  in particular 0.01 at iteration 30 with milestones \<^verbatim>\<open>[10, 30]\<close>, \<^verbatim>\<open>gamma = 0.1\<close> and \<^verbatim>\<open>max_lr = 1.0\<close>. In doubles
  \<^verbatim>\<open>1.0 * 0.1 ** 2\<close> is 0.010000000000000002, not the double 0.01.
\<close>

theorem MultiStepLR_rate_30_counterexample:
  "MultiStepLR_call_f64
      \<lparr>MultiStepLR.max_lr = 1, max_iters = 100000, gamma = float_literal 0.1, milestones = [10, 30]\<rparr> 30
     = Inr (Fin (1441151880758559 / 144115188075855872))
   \<and> float_literal 0.01 = 5764607523034235 / 576460752303423488
   \<and> MultiStepLR_call_f64
      \<lparr>MultiStepLR.max_lr = 1, max_iters = 100000, gamma = float_literal 0.1, milestones = [10, 30]\<rparr> 30
     \<noteq> Inr (Fin (float_literal 0.01))"
  by (simp add: MultiStepLR_call_f64_def milestones_passed_def run_defs
      float_literal_eq [OF rnd_ev_3] float_literal_eq [OF rnd_ev_1] rnd_ev_49 rnd_ev_50)

text \<open>
  C7, as amended. For every \<^verbatim>\<open>MultiStepLR\<close> and every iteration \<open>t\<close> the call does what
  \<^verbatim>\<open>max_lr * gamma ** k\<close> does in doubles (a rate, or \<^verbatim>\<open>OverflowError\<close> when the power overflows), where \<open>k\<close> is the number of
  milestones \<open>m\<close> with \<open>m \<le> t\<close>. With milestones \<^verbatim>\<open>[10, 30]\<close>, \<^verbatim>\<open>gamma = 0.1\<close> and \<^verbatim>\<open>max_lr = 1.0\<close> the rate is 1.0 at iteration 5,
  0.1 at iterations 10 and 29, and 0.010000000000000002 at iteration 30.
\<close>

theorem MultiStepLR_f64_counts_milestones:
  "MultiStepLR_call_f64 self t
     = and_then (float_pow_int (MultiStepLR.gamma self)
                   (int (length (filter (\<lambda>m. m \<le> t) (milestones self)))))
         (\<lambda>p. Inr (f64_mul (Fin (MultiStepLR.max_lr self)) p))
   \<and> MultiStepLR_call_f64
      \<lparr>MultiStepLR.max_lr = 1, max_iters = 100000, gamma = float_literal 0.1, milestones = [10, 30]\<rparr> 5
     = Inr (Fin 1)
   \<and> MultiStepLR_call_f64
      \<lparr>MultiStepLR.max_lr = 1, max_iters = 100000, gamma = float_literal 0.1, milestones = [10, 30]\<rparr> 10
     = Inr (Fin (float_literal 0.1))
   \<and> MultiStepLR_call_f64
      \<lparr>MultiStepLR.max_lr = 1, max_iters = 100000, gamma = float_literal 0.1, milestones = [10, 30]\<rparr> 29
     = Inr (Fin (float_literal 0.1))
   \<and> MultiStepLR_call_f64
      \<lparr>MultiStepLR.max_lr = 1, max_iters = 100000, gamma = float_literal 0.1, milestones = [10, 30]\<rparr> 30
     = Inr (Fin (1441151880758559 / 144115188075855872))"
proof -
  have gen: "MultiStepLR_call_f64 self t
     = and_then (float_pow_int (MultiStepLR.gamma self)
                   (int (length (filter (\<lambda>m. m \<le> t) (milestones self)))))
         (\<lambda>p. Inr (f64_mul (Fin (MultiStepLR.max_lr self)) p))"
    by (simp only: MultiStepLR_call_f64_def milestones_passed_count)
  have samples: "MultiStepLR_call_f64
      \<lparr>MultiStepLR.max_lr = 1, max_iters = 100000, gamma = float_literal 0.1, milestones = [10, 30]\<rparr> 5
     = Inr (Fin 1)"
    "MultiStepLR_call_f64
      \<lparr>MultiStepLR.max_lr = 1, max_iters = 100000, gamma = float_literal 0.1, milestones = [10, 30]\<rparr> 10
     = Inr (Fin (float_literal 0.1))"
    "MultiStepLR_call_f64
      \<lparr>MultiStepLR.max_lr = 1, max_iters = 100000, gamma = float_literal 0.1, milestones = [10, 30]\<rparr> 29
     = Inr (Fin (float_literal 0.1))"
    "MultiStepLR_call_f64
      \<lparr>MultiStepLR.max_lr = 1, max_iters = 100000, gamma = float_literal 0.1, milestones = [10, 30]\<rparr> 30
     = Inr (Fin (1441151880758559 / 144115188075855872))"
    by (simp_all add: MultiStepLR_call_f64_def milestones_passed_def run_defs
        float_literal_eq [OF rnd_ev_3] rnd_ev_45 rnd_ev_49 rnd_ev_50)
  from gen samples show ?thesis by simp
qed

theorem MultiStepLR_f64_counts_milestones_witness:
  "MultiStepLR_call_f64
     \<lparr>MultiStepLR.max_lr = 2, max_iters = 100, gamma = 1 / 2, milestones = [3, 10, 7]\<rparr> 8
     = Inr (Fin (1 / 2))"
  using MultiStepLR_f64_counts_milestones
    [of "\<lparr>MultiStepLR.max_lr = 2, max_iters = 100, gamma = 1 / 2, milestones = [3, 10, 7]\<rparr>" 8]
  by (simp add: run_defs rnd_ev_51 rnd_ev_32)

subsection \<open>LinearLR\<close>

text \<open>
  C9 says that for every \<^verbatim>\<open>LinearLR\<close> with \<^verbatim>\<open>max_lr > 0\<close> and \<^verbatim>\<open>max_iters >= 1\<close> the rate at every iteration beyond \<^verbatim>\<open>max_iters\<close> is
  strictly negative. With \<^verbatim>\<open>max_lr = 1\<close> and \<^verbatim>\<open>max_iters = 10 ** 17\<close> the quotient \<open>(10 ^ 17 + 1) / 10 ^ 17\<close> rounds to 1.0, and
  the rate at \<open>10 ^ 17 + 1\<close> is 0.0.
\<close>

theorem LinearLR_zero_rate_counterexample:
  "0 < LinearLR.max_lr \<lparr>LinearLR.max_lr = 1, max_iters = 100000000000000000\<rparr>
   \<and> 1 \<le> LinearLR.max_iters \<lparr>LinearLR.max_lr = 1, max_iters = 100000000000000000\<rparr>
   \<and> LinearLR.max_iters \<lparr>LinearLR.max_lr = 1, max_iters = 100000000000000000\<rparr> < 100000000000000001
   \<and> LinearLR_call_f64 \<lparr>LinearLR.max_lr = 1, max_iters = 100000000000000000\<rparr> 100000000000000001
       = Inr (Fin 0)"
  by (simp add: LinearLR_call_f64_def run_defs rnd_ev_57)

lemma LinearLR_quotient:
  assumes m: "1 \<le> LinearLR.max_iters self" and t: "LinearLR.max_iters self < t"
  shows "int_truediv t (LinearLR.max_iters self) = Inl OverflowError
    \<or> (\<exists>q. int_truediv t (LinearLR.max_iters self) = Inr (Fin q) \<and> 1 \<le> q
          \<and> (LinearLR.max_iters self < 2 ^ 53 \<longrightarrow> 1 + 2 powi (- 52) \<le> q))"
proof -
  define M where "M = LinearLR.max_iters self"
  define x :: real where "x = of_int t / of_int M"
  from m t have M: "0 < M" "M < t" by (simp_all add: M_def)
  then have x1: "1 \<le> x" by (simp add: x_def)
  have one: "rnd_fin 1 = 1" using rnd_fin_of_int [of 1] by simp
  have q1: "1 \<le> rnd_fin x" using one x1 by (intro rnd_fin_ge) simp_all
  have q2: "1 + 2 powi (- 52) \<le> rnd_fin x" if small: "M < 2 ^ 53"
  proof -
    from M have "M + 1 \<le> t" by simp
    then have "(of_int (M + 1) :: real) \<le> of_int t" by (simp only: of_int_le_iff)
    then have "of_int M + 1 \<le> (of_int t :: real)" by simp
    then have "(of_int M + 1) / of_int M \<le> (of_int t :: real) / of_int M"
      using M by (intro divide_right_mono) simp_all
    moreover have "(of_int M + 1) / of_int M = (1 + 1 / of_int M :: real)"
      using M by (simp add: add_divide_distrib)
    ultimately have "1 + 1 / of_int M \<le> x"
      by (simp add: x_def)
    moreover from small have "(of_int M :: real) < of_int (2 ^ 53)"
      by (simp only: of_int_less_iff)
    then have "(2::real) powi (- 53) < 1 / of_int M"
      using M by (simp add: field_simps)
    ultimately have "1 + 2 powi (- 53) < x" by linarith
    then show ?thesis by (rule rnd_above_one)
  qed
  show ?thesis
  proof (cases "rnd x")
    case (Fin q)
    then have "rnd_fin x = q" by (simp add: rnd_Fin_iff)
    with q1 q2 Fin M show ?thesis
      by (simp add: int_truediv_def M_def [symmetric] x_def [symmetric])
  qed (use M in \<open>simp_all add: int_truediv_def M_def [symmetric] x_def [symmetric]\<close>)
qed

text \<open>
  C9, as amended. For \<^verbatim>\<open>LinearLR\<close> with \<^verbatim>\<open>max_lr = 1.0\<close> and \<^verbatim>\<open>max_iters = 100\<close> the rate is 1.0 at iteration 0, 0.0 at iteration
  100 and 0.5 at iteration 50. For every configuration with \<^verbatim>\<open>max_lr > 0\<close> and \<^verbatim>\<open>max_iters >= 1\<close> and every iteration
  beyond \<^verbatim>\<open>max_iters\<close> the call raises \<^verbatim>\<open>OverflowError\<close> (the quotient is too large for a float) or returns a rate
  that is not positive: nothing clamps it. The rate is strictly negative when moreover
  \<open>max_iters < 2 ^ 53\<close> and \<open>max_lr \<ge> 2 ^ - 1022\<close>, the smallest normal double.
\<close>

theorem LinearLR_f64_values_and_sign:
  "LinearLR_call_f64 \<lparr>LinearLR.max_lr = 1, max_iters = 100\<rparr> 0 = Inr (Fin 1)
   \<and> LinearLR_call_f64 \<lparr>LinearLR.max_lr = 1, max_iters = 100\<rparr> 100 = Inr (Fin 0)
   \<and> LinearLR_call_f64 \<lparr>LinearLR.max_lr = 1, max_iters = 100\<rparr> 50 = Inr (Fin 0.5)
   \<and> (0 < LinearLR.max_lr self \<and> 1 \<le> LinearLR.max_iters self \<and> LinearLR.max_iters self < t
        \<longrightarrow> LinearLR_call_f64 self t = Inl OverflowError
            \<or> (\<exists>r. LinearLR_call_f64 self t = Inr r \<and> f64_le r (Fin 0)))
   \<and> (2 powi (- 1022) \<le> LinearLR.max_lr self \<and> 1 \<le> LinearLR.max_iters self
        \<and> LinearLR.max_iters self < 2 ^ 53 \<and> LinearLR.max_iters self < t
        \<longrightarrow> LinearLR_call_f64 self t = Inl OverflowError
            \<or> (\<exists>r. LinearLR_call_f64 self t = Inr r \<and> f64_less r (Fin 0)))"
proof -
  have samples: "LinearLR_call_f64 \<lparr>LinearLR.max_lr = 1, max_iters = 100\<rparr> 0 = Inr (Fin 1)"
    "LinearLR_call_f64 \<lparr>LinearLR.max_lr = 1, max_iters = 100\<rparr> 100 = Inr (Fin 0)"
    "LinearLR_call_f64 \<lparr>LinearLR.max_lr = 1, max_iters = 100\<rparr> 50 = Inr (Fin 0.5)"
    by (simp_all add: LinearLR_call_f64_def run_defs rnd_ev_32)
  have nonpos: "LinearLR_call_f64 self t = Inl OverflowError
            \<or> (\<exists>r. LinearLR_call_f64 self t = Inr r \<and> f64_le r (Fin 0))"
    if a: "0 < LinearLR.max_lr self" and m: "1 \<le> LinearLR.max_iters self"
      and t: "LinearLR.max_iters self < t"
  proof -
    from LinearLR_quotient [OF m t] show ?thesis
    proof
      assume "int_truediv t (LinearLR.max_iters self) = Inl OverflowError"
      then show ?thesis by (simp add: LinearLR_call_f64_def and_then_def)
    next
      assume "\<exists>q. int_truediv t (LinearLR.max_iters self) = Inr (Fin q) \<and> 1 \<le> q
          \<and> (LinearLR.max_iters self < 2 ^ 53 \<longrightarrow> 1 + 2 powi (- 52) \<le> q)"
      then obtain q where q: "int_truediv t (LinearLR.max_iters self) = Inr (Fin q)" "1 \<le> q"
        by blast
      then have call: "LinearLR_call_f64 self t
          = Inr (f64_mul (Fin (LinearLR.max_lr self)) (rnd (1 - q)))"
        by (simp add: LinearLR_call_f64_def and_then_def)
      from q have "1 - q \<le> 0" by simp
      from rnd_nonpos [OF this] show ?thesis
      proof
        assume "\<exists>s. rnd (1 - q) = Fin s \<and> s \<le> 0"
        then obtain s where s: "rnd (1 - q) = Fin s" "s \<le> 0" by blast
        with a have "LinearLR.max_lr self * s \<le> 0"
          by (simp add: mult_le_0_iff)
        from rnd_nonpos [OF this] s call show ?thesis
          by (auto simp: f64_le_def)
      next
        assume "rnd (1 - q) = NInf"
        with a call show ?thesis by (simp add: f64_le_def)
      qed
    qed
  qed
  have neg: "LinearLR_call_f64 self t = Inl OverflowError
            \<or> (\<exists>r. LinearLR_call_f64 self t = Inr r \<and> f64_less r (Fin 0))"
    if a: "2 powi (- 1022) \<le> LinearLR.max_lr self" and m: "1 \<le> LinearLR.max_iters self"
      and small: "LinearLR.max_iters self < 2 ^ 53" and t: "LinearLR.max_iters self < t"
  proof -
    have apos: "0 < LinearLR.max_lr self"
      using a ulp_pos [of "- 1022"] by linarith
    from LinearLR_quotient [OF m t] show ?thesis
    proof
      assume "int_truediv t (LinearLR.max_iters self) = Inl OverflowError"
      then show ?thesis by (simp add: LinearLR_call_f64_def and_then_def)
    next
      assume "\<exists>q. int_truediv t (LinearLR.max_iters self) = Inr (Fin q) \<and> 1 \<le> q
          \<and> (LinearLR.max_iters self < 2 ^ 53 \<longrightarrow> 1 + 2 powi (- 52) \<le> q)"
      with small obtain q where q: "int_truediv t (LinearLR.max_iters self) = Inr (Fin q)"
        "1 + 2 powi (- 52) \<le> q"
        by blast
      then have call: "LinearLR_call_f64 self t
          = Inr (f64_mul (Fin (LinearLR.max_lr self)) (rnd (1 - q)))"
        by (simp add: LinearLR_call_f64_def and_then_def)
      from q have "1 - q \<le> - (2 powi (- 52))" by simp
      then have "(\<exists>s. rnd (1 - q) = Fin s \<and> s \<le> - (2 powi (- 52))) \<or> rnd (1 - q) = NInf"
        by (intro rnd_le_neg rnd_fin_pow2) simp_all
      then show ?thesis
      proof
        assume "\<exists>s. rnd (1 - q) = Fin s \<and> s \<le> - (2 powi (- 52))"
        then obtain s where s: "rnd (1 - q) = Fin s" "s \<le> - (2 powi (- 52))" by blast
        have "(2::real) powi (- 1074) = 2 powi (- 1022) * 2 powi (- 52)"
          by (subst power_int_add [symmetric]) simp_all
        also have "\<dots> \<le> LinearLR.max_lr self * (- s)"
          using a s by (intro mult_mono) simp_all
        finally have "LinearLR.max_lr self * s \<le> - (2 powi (- 1074))" by simp
        then have "(\<exists>y. rnd (LinearLR.max_lr self * s) = Fin y \<and> y \<le> - (2 powi (- 1074)))
            \<or> rnd (LinearLR.max_lr self * s) = NInf"
          by (intro rnd_le_neg rnd_fin_pow2) simp_all
        moreover have "y < 0" if "y \<le> - (2 powi (- 1074))" for y :: real
          using that ulp_pos [of "- 1074"] by linarith
        ultimately show ?thesis
          using s call by auto
      next
        assume "rnd (1 - q) = NInf"
        with apos call show ?thesis by simp
      qed
    qed
  qed
  from samples nonpos neg show ?thesis by blast
qed

theorem LinearLR_f64_values_and_sign_witness:
  "0 < LinearLR.max_lr \<lparr>LinearLR.max_lr = 2, max_iters = 10\<rparr>
   \<and> 2 powi (- 1022) \<le> LinearLR.max_lr \<lparr>LinearLR.max_lr = 2, max_iters = 10\<rparr>
   \<and> 1 \<le> LinearLR.max_iters \<lparr>LinearLR.max_lr = 2, max_iters = 10\<rparr>
   \<and> LinearLR.max_iters \<lparr>LinearLR.max_lr = 2, max_iters = 10\<rparr> < 2 ^ 53
   \<and> LinearLR.max_iters \<lparr>LinearLR.max_lr = 2, max_iters = 10\<rparr> < 15
   \<and> LinearLR_call_f64 \<lparr>LinearLR.max_lr = 2, max_iters = 10\<rparr> 15 = Inr (Fin (- 1))
   \<and> f64_le (Fin (- 1)) (Fin 0) \<and> f64_less (Fin (- 1)) (Fin 0)"
proof -
  have "(2::real) powi (- 1022) \<le> 2 powi 1"
    by (rule power_int_increasing) simp_all
  then have "2 powi (- 1022) \<le> LinearLR.max_lr \<lparr>LinearLR.max_lr = 2, max_iters = 10\<rparr>"
    by simp
  moreover have "LinearLR_call_f64 \<lparr>LinearLR.max_lr = 2, max_iters = 10\<rparr> 15 = Inr (Fin (- 1))"
    by (simp add: LinearLR_call_f64_def run_defs rnd_ev_33 rnd_ev_58)
  ultimately show ?thesis
    using LinearLR_f64_values_and_sign [of "\<lparr>LinearLR.max_lr = 2, max_iters = 10\<rparr>" 15]
    by (simp add: f64_le_def)
qed

subsection \<open>CyclicLR\<close>

lemma rnd_nat:
  assumes "n \<le> 2 ^ 53"
  shows "rnd (real n) = Fin (real n)"
proof -
  from assms have "\<bar>int n\<bar> \<le> 2 ^ 53" by (simp add: of_nat_le_iff [of n "2 ^ 53", where ?'a = int, simplified])
  from rnd_of_int [OF this] show ?thesis by simp
qed




subsection \<open>OneCycleLR\<close>




end

